theory Spec2Isabelle
  imports Complex_Main "HOL-Library.Multiset"
begin

section \<open>JavaScript maps\<close>

text \<open>
  A JavaScript \<open>Map\<close> keeps one value per key and iterates in insertion order.  It is
  modelled as an association list: \<open>set\<close> on a key already present replaces the value
  where it stands, \<open>set\<close> on a new key appends, \<open>delete\<close> drops the key and \<open>size\<close>
  is the number of entries.
\<close>

type_synonym ('k, 'v) jsmap = "('k \<times> 'v) list"

definition Map_get :: "('k, 'v) jsmap \<Rightarrow> 'k \<Rightarrow> 'v option" where
  "Map_get m k = map_of m k"

definition Map_has :: "('k, 'v) jsmap \<Rightarrow> 'k \<Rightarrow> bool" where
  "Map_has m k = (map_of m k \<noteq> None)"

fun Map_set :: "'k \<Rightarrow> 'v \<Rightarrow> ('k, 'v) jsmap \<Rightarrow> ('k, 'v) jsmap" where
  "Map_set k v [] = [(k, v)]"
| "Map_set k v (e # m) = (if fst e = k then (k, v) # m else e # Map_set k v m)"

definition Map_delete :: "'k \<Rightarrow> ('k, 'v) jsmap \<Rightarrow> ('k, 'v) jsmap" where
  "Map_delete k m = filter (\<lambda>e. fst e \<noteq> k) m"

definition Map_size :: "('k, 'v) jsmap \<Rightarrow> nat" where
  "Map_size m = length m"

definition Map_keys :: "('k, 'v) jsmap \<Rightarrow> 'k list" where
  "Map_keys m = map fst m"

definition Map_values :: "('k, 'v) jsmap \<Rightarrow> 'v list" where
  "Map_values m = map snd m"

section \<open>Strings and numbers of the host language\<close>

definition digit_char :: "nat \<Rightarrow> char" where
  "digit_char d = ''0123456789'' ! d"

text \<open>How a template literal prints a whole number: its decimal digits.\<close>

function digits_onto :: "nat \<Rightarrow> string \<Rightarrow> string" where
  "digits_onto n acc =
     (if 10 \<le> n then digits_onto (n div 10) (digit_char (n mod 10) # acc) else digit_char n # acc)"
  by pat_completeness auto
termination
  by (relation "measure fst") auto

declare digits_onto.simps [simp del]

definition nat_toString :: "nat \<Rightarrow> string" where
  "nat_toString n = digits_onto n []"

definition int_toString :: "int \<Rightarrow> string" where
  "int_toString i = (if 0 \<le> i then nat_toString (nat i) else CHR ''-'' # nat_toString (nat (- i)))"

fun startsWith :: "string \<Rightarrow> string \<Rightarrow> bool" where
  "startsWith s [] = True"
| "startsWith [] (c # cs) = False"
| "startsWith (x # xs) (c # cs) = (x = c \<and> startsWith xs cs)"

fun string_includes :: "string \<Rightarrow> string \<Rightarrow> bool" where
  "string_includes [] sub = (sub = [])"
| "string_includes (x # xs) sub = (startsWith (x # xs) sub \<or> string_includes xs sub)"

text \<open>
  A JavaScript \<open>number\<close>: a finite value (a rational stands for it; rounding and
  overflow of doubles are not modelled), \<open>NaN\<close> or an infinity.  Every comparison with
  \<open>NaN\<close> is false, arithmetic on \<open>NaN\<close> gives \<open>NaN\<close>, \<open>Number.isInteger\<close> holds for the
  finite values without a fractional part, and \<open>a || b\<close> takes \<open>b\<close> when \<open>a\<close> is 0 or
  \<open>NaN\<close>.
\<close>

datatype number = Finite rat | NaN | PosInfinity | NegInfinity

fun number_less :: "number \<Rightarrow> rat \<Rightarrow> bool" where
  "number_less (Finite q) c = (q < c)"
| "number_less NaN c = False"
| "number_less PosInfinity c = False"
| "number_less NegInfinity c = True"

fun number_greater :: "number \<Rightarrow> rat \<Rightarrow> bool" where
  "number_greater (Finite q) c = (q > c)"
| "number_greater NaN c = False"
| "number_greater PosInfinity c = True"
| "number_greater NegInfinity c = False"

fun isInteger :: "number \<Rightarrow> bool" where
  "isInteger (Finite q) = (of_int \<lfloor>q\<rfloor> = q)"
| "isInteger NaN = False"
| "isInteger PosInfinity = False"
| "isInteger NegInfinity = False"

fun number_falsy :: "number \<Rightarrow> bool" where
  "number_falsy (Finite q) = (q = 0)"
| "number_falsy NaN = True"
| "number_falsy PosInfinity = False"
| "number_falsy NegInfinity = False"

text \<open>\<open>x + c\<close> and \<open>c * x\<close> for a finite constant \<open>c\<close>, positive in the product.\<close>

fun number_plus :: "number \<Rightarrow> rat \<Rightarrow> number" where
  "number_plus (Finite q) c = Finite (q + c)"
| "number_plus NaN c = NaN"
| "number_plus PosInfinity c = PosInfinity"
| "number_plus NegInfinity c = NegInfinity"

fun number_times :: "rat \<Rightarrow> number \<Rightarrow> number" where
  "number_times c (Finite q) = Finite (c * q)"
| "number_times c NaN = NaN"
| "number_times c PosInfinity = PosInfinity"
| "number_times c NegInfinity = NegInfinity"

text \<open>\<open>Math.max(0, x)\<close>.\<close>

fun max_zero :: "number \<Rightarrow> number" where
  "max_zero (Finite q) = Finite (max 0 q)"
| "max_zero NaN = NaN"
| "max_zero PosInfinity = PosInfinity"
| "max_zero NegInfinity = Finite 0"

text \<open>
  How a template literal prints a number.  Whole numbers are printed by their digits
  (the exponent form of very large values is not modelled).  For a finite value with a
  fractional part JavaScript prints the shortest decimal that reads back as the same
  double; floating point is not modelled, and \<open>number_toString\<close> gives the decimal
  expansion of the rational, cut after 17 places.
\<close>

fun fraction_digits :: "nat \<Rightarrow> rat \<Rightarrow> string" where
  "fraction_digits 0 r = []"
| "fraction_digits (Suc fuel) r =
     (if r = 0 then []
      else digit_char (nat \<lfloor>r * 10\<rfloor>) # fraction_digits fuel (r * 10 - of_int \<lfloor>r * 10\<rfloor>))"

fun number_toString :: "number \<Rightarrow> string" where
  "number_toString (Finite q) =
     (if of_int \<lfloor>q\<rfloor> = q then int_toString \<lfloor>q\<rfloor>
      else (if q < 0 then ''-'' else []) @ nat_toString (nat \<lfloor>\<bar>q\<bar>\<rfloor>) @ ''.'' @
           fraction_digits 17 (\<bar>q\<bar> - of_int \<lfloor>\<bar>q\<bar>\<rfloor>))"
| "number_toString NaN = ''NaN''"
| "number_toString PosInfinity = ''Infinity''"
| "number_toString NegInfinity = ''-Infinity''"

section \<open>NumberingManager\<close>

subsection \<open>Numbering levels, abstract numberings and instances\<close>

datatype numbering_error =
    InvalidLevel number
  | AbstractNumberingMissing int
  | NegativeIndent string

text \<open>
  Modelled from the spec: the class \<open>NumberingLevel\<close> (formatting/NumberingLevel.ts) is not
  among the sources.  A level owns its index (0 to 8), format, template text, and left and
  hanging indent in twips; its setters reject a negative indent, as the tests of the class
  expect (\<open>Left indent must be non-negative\<close>, \<open>Hanging indent must be non-negative\<close>).
  The indents are JavaScript numbers: the manager passes the setters whatever
  \<open>getStandardIndentation\<close> and \<open>Math.max\<close> computed.
\<close>

record NumberingLevel =
  lvl_level :: int
  lvl_format :: string
  lvl_text :: string
  lvl_leftIndent :: number
  lvl_hangingIndent :: number

definition setLeftIndent :: "number \<Rightarrow> NumberingLevel \<Rightarrow> numbering_error + NumberingLevel" where
  "setLeftIndent n l =
     (if number_less n 0 then Inl (NegativeIndent ''Left indent must be non-negative'')
      else Inr (l\<lparr>lvl_leftIndent := n\<rparr>))"

definition setHangingIndent :: "number \<Rightarrow> NumberingLevel \<Rightarrow> numbering_error + NumberingLevel" where
  "setHangingIndent n l =
     (if number_less n 0 then Inl (NegativeIndent ''Hanging indent must be non-negative'')
      else Inr (l\<lparr>lvl_hangingIndent := n\<rparr>))"

text \<open>
  Modelled from the spec: the classes \<open>AbstractNumbering\<close> and \<open>NumberingInstance\<close> are not
  among the sources.  An abstract numbering is an integer id with its levels; \<open>getLevel\<close>
  finds the level of a given index (a JavaScript number, compared with the index of each
  level) and \<open>getAllLevels\<close> lists them.  An instance binds a \<open>numId\<close> to the id of one
  abstract numbering.
\<close>

record AbstractNumbering =
  abstractNumId :: int
  abs_levels :: "NumberingLevel list"

definition level_number :: "NumberingLevel \<Rightarrow> number" where
  "level_number l = Finite (of_int (lvl_level l))"

definition getLevel :: "AbstractNumbering \<Rightarrow> number \<Rightarrow> NumberingLevel option" where
  "getLevel a i = find (\<lambda>l. level_number l = i) (abs_levels a)"

definition getAllLevels :: "AbstractNumbering \<Rightarrow> NumberingLevel list" where
  "getAllLevels a = abs_levels a"

record NumberingInstance =
  inst_numId :: int
  inst_abstractNumId :: int

subsection \<open>The manager's state and its operations\<close>

record NumberingManager =
  abstractNumberings :: "(int, AbstractNumbering) jsmap"
  instances :: "(int, NumberingInstance) jsmap"
  nextAbstractNumId :: int
  nextNumId :: int

definition NumberingManager_empty :: NumberingManager where
  "NumberingManager_empty =
     \<lparr>abstractNumberings = [], instances = [], nextAbstractNumId = 0, nextNumId = 1\<rparr>"

definition addAbstractNumbering :: "NumberingManager \<Rightarrow> AbstractNumbering \<Rightarrow> NumberingManager" where
  "addAbstractNumbering m a =
     (let id = abstractNumId a;
          m1 = m\<lparr>abstractNumberings := Map_set id a (abstractNumberings m)\<rparr>
      in if id \<ge> nextAbstractNumId m1 then m1\<lparr>nextAbstractNumId := id + 1\<rparr> else m1)"

definition getAbstractNumbering :: "NumberingManager \<Rightarrow> int \<Rightarrow> AbstractNumbering option" where
  "getAbstractNumbering m a = Map_get (abstractNumberings m) a"

definition hasAbstractNumbering :: "NumberingManager \<Rightarrow> int \<Rightarrow> bool" where
  "hasAbstractNumbering m a = Map_has (abstractNumberings m) a"

definition removeAbstractNumbering :: "NumberingManager \<Rightarrow> int \<Rightarrow> NumberingManager \<times> bool" where
  "removeAbstractNumbering m a =
     (let instancesToRemove =
            map fst (filter (\<lambda>(numId, instance). inst_abstractNumId instance = a) (instances m));
          m1 = m\<lparr>instances := fold Map_delete instancesToRemove (instances m)\<rparr>
      in (m1\<lparr>abstractNumberings := Map_delete a (abstractNumberings m1)\<rparr>,
          Map_has (abstractNumberings m1) a))"

definition addInstance :: "NumberingManager \<Rightarrow> NumberingInstance \<Rightarrow> numbering_error + NumberingManager" where
  "addInstance m instance =
     (let numId = inst_numId instance;
          a = inst_abstractNumId instance
      in if \<not> hasAbstractNumbering m a then Inl (AbstractNumberingMissing a)
         else
           (let m1 = m\<lparr>instances := Map_set numId instance (instances m)\<rparr>
            in Inr (if numId \<ge> nextNumId m1 then m1\<lparr>nextNumId := numId + 1\<rparr> else m1)))"

definition getInstance :: "NumberingManager \<Rightarrow> int \<Rightarrow> NumberingInstance option" where
  "getInstance m numId = Map_get (instances m) numId"

definition hasInstance :: "NumberingManager \<Rightarrow> int \<Rightarrow> bool" where
  "hasInstance m numId = Map_has (instances m) numId"

definition removeInstance :: "NumberingManager \<Rightarrow> int \<Rightarrow> NumberingManager \<times> bool" where
  "removeInstance m numId =
     (m\<lparr>instances := Map_delete numId (instances m)\<rparr>, Map_has (instances m) numId)"

definition getAbstractNumberingCount :: "NumberingManager \<Rightarrow> nat" where
  "getAbstractNumberingCount m = Map_size (abstractNumberings m)"

definition getInstanceCount :: "NumberingManager \<Rightarrow> nat" where
  "getInstanceCount m = Map_size (instances m)"

definition getAllInstances :: "NumberingManager \<Rightarrow> NumberingInstance list" where
  "getAllInstances m = sort_key inst_numId (Map_values (instances m))"

definition NumberingManager_clear :: "NumberingManager \<Rightarrow> NumberingManager" where
  "NumberingManager_clear m = m\<lparr>abstractNumberings := [], instances := [], nextAbstractNumId := 0, nextNumId := 1\<rparr>"

subsection \<open>Standard indentation\<close>

record indentation =
  leftIndent :: number
  hangingIndent :: number

text \<open>
  The parameter \<open>level\<close> has the type \<open>number\<close>, and the guard is the two comparisons
  \<open>level < 0 || level > 8\<close> and nothing else.
\<close>

definition getStandardIndentation :: "number \<Rightarrow> numbering_error + indentation" where
  "getStandardIndentation level =
     (if number_less level 0 \<or> number_greater level 8 then Inl (InvalidLevel level)
      else Inr \<lparr>leftIndent = number_times 720 (number_plus level 1), hangingIndent = Finite 360\<rparr>)"

text \<open>
  The loop of \<open>normalizeListIndentation\<close> over the levels.  A level object is changed in
  place, so when a call throws, the levels already visited keep their new indents: the
  function returns the levels as they stand together with the error, if any.
\<close>

fun normalizeLevels :: "NumberingLevel list \<Rightarrow> NumberingLevel list \<times> numbering_error option" where
  "normalizeLevels [] = ([], None)"
| "normalizeLevels (l # ls) =
     (case getStandardIndentation (level_number l) of
        Inl e \<Rightarrow> (l # ls, Some e)
      | Inr standardIndent \<Rightarrow>
          (case setLeftIndent (leftIndent standardIndent) l of
             Inl e \<Rightarrow> (l # ls, Some e)
           | Inr l1 \<Rightarrow>
               (case setHangingIndent (hangingIndent standardIndent) l1 of
                  Inl e \<Rightarrow> (l1 # ls, Some e)
                | Inr l2 \<Rightarrow>
                    (case normalizeLevels ls of (ls', r) \<Rightarrow> (l2 # ls', r)))))"

definition normalizeListIndentation ::
  "NumberingManager \<Rightarrow> int \<Rightarrow> NumberingManager \<times> (numbering_error + bool)" where
  "normalizeListIndentation m numId =
     (case getInstance m numId of
        None \<Rightarrow> (m, Inr False)
      | Some instance \<Rightarrow>
          (case getAbstractNumbering m (inst_abstractNumId instance) of
             None \<Rightarrow> (m, Inr False)
           | Some abstractNum \<Rightarrow>
               (case normalizeLevels (getAllLevels abstractNum) of (ls', r) \<Rightarrow>
                  (m\<lparr>abstractNumberings :=
                       Map_set (inst_abstractNumId instance) (abstractNum\<lparr>abs_levels := ls'\<rparr>)
                         (abstractNumberings m)\<rparr>,
                   case r of Some e \<Rightarrow> Inl e | None \<Rightarrow> Inr True))))"

text \<open>
  \<open>setListIndentation\<close> changes the level object that \<open>getLevel\<close> returned, in place:
  in the model the first level of that index is replaced by its new value.
\<close>

fun replaceLevel :: "number \<Rightarrow> NumberingLevel \<Rightarrow> NumberingLevel list \<Rightarrow> NumberingLevel list" where
  "replaceLevel i l' [] = []"
| "replaceLevel i l' (l # ls) = (if level_number l = i then l' # ls else l # replaceLevel i l' ls)"

definition setListIndentation ::
  "NumberingManager \<Rightarrow> int \<Rightarrow> number \<Rightarrow> number \<Rightarrow> number option \<Rightarrow>
     NumberingManager \<times> (numbering_error + bool)" where
  "setListIndentation m numId level leftIndent0 hangingIndentOpt =
     (let hangingIndent0 = (case hangingIndentOpt of None \<Rightarrow> Finite 360 | Some h \<Rightarrow> h)
      in if number_less level 0 \<or> number_greater level 8 then (m, Inl (InvalidLevel level))
         else
           (let leftIndent1 = max_zero leftIndent0;
                hangingIndent1 = max_zero hangingIndent0
            in case getInstance m numId of
                 None \<Rightarrow> (m, Inr False)
               | Some instance \<Rightarrow>
                   (case getAbstractNumbering m (inst_abstractNumId instance) of
                      None \<Rightarrow> (m, Inr False)
                    | Some abstractNum \<Rightarrow>
                        (case getLevel abstractNum level of
                           None \<Rightarrow> (m, Inr False)
                         | Some numLevel \<Rightarrow>
                             (let store = (\<lambda>l'. m\<lparr>abstractNumberings :=
                                    Map_set (inst_abstractNumId instance)
                                      (abstractNum\<lparr>abs_levels :=
                                         replaceLevel level l' (abs_levels abstractNum)\<rparr>)
                                      (abstractNumberings m)\<rparr>)
                              in case setLeftIndent leftIndent1 numLevel of
                                   Inl e \<Rightarrow> (m, Inl e)
                                 | Inr l1 \<Rightarrow>
                                     (case setHangingIndent hangingIndent1 l1 of
                                        Inl e \<Rightarrow> (store l1, Inl e)
                                      | Inr l2 \<Rightarrow> (store l2, Inr True)))))))"

fun normalizeAll_loop ::
  "int list \<Rightarrow> NumberingManager \<Rightarrow> nat \<Rightarrow> NumberingManager \<times> (numbering_error + nat)" where
  "normalizeAll_loop [] m cnt = (m, Inr cnt)"
| "normalizeAll_loop (numId # rest) m cnt =
     (case normalizeListIndentation m numId of
        (m1, Inl e) \<Rightarrow> (m1, Inl e)
      | (m1, Inr success) \<Rightarrow> normalizeAll_loop rest m1 (if success then cnt + 1 else cnt))"

definition normalizeAllListIndentation ::
  "NumberingManager \<Rightarrow> NumberingManager \<times> (numbering_error + nat)" where
  "normalizeAllListIndentation m = normalizeAll_loop (map inst_numId (getAllInstances m)) m 0"

subsection \<open>Creating lists\<close>

text \<open>
  \<open>createBulletList\<close>, \<open>createNumberedList\<close>, \<open>createMultiLevelList\<close>, \<open>createOutlineList\<close>
  and \<open>createCustomList\<close> share one body and differ in the factory of \<open>AbstractNumbering\<close>
  they call with the fresh id.  The factories are not among the sources, so the factory is
  a parameter \<open>mk\<close>: any function from the id to an abstract numbering.  The counters are
  advanced and the abstract numbering stored before \<open>addInstance\<close> can throw, so the state
  is returned in both cases.
\<close>

definition createList ::
  "(int \<Rightarrow> AbstractNumbering) \<Rightarrow> NumberingManager \<Rightarrow> NumberingManager \<times> (numbering_error + int)" where
  "createList mk m =
     (let a = nextAbstractNumId m;
          m1 = m\<lparr>nextAbstractNumId := a + 1\<rparr>;
          m2 = addAbstractNumbering m1 (mk a);
          numId = nextNumId m2;
          m3 = m2\<lparr>nextNumId := numId + 1\<rparr>;
          instance = \<lparr>inst_numId = numId, inst_abstractNumId = a\<rparr>
      in case addInstance m3 instance of
           Inl e \<Rightarrow> (m3, Inl e)
         | Inr m4 \<Rightarrow> (m4, Inr numId))"

definition createBulletList ::
  "(int \<Rightarrow> AbstractNumbering) \<Rightarrow> NumberingManager \<Rightarrow> NumberingManager \<times> (numbering_error + int)" where
  "createBulletList mk = createList mk"

definition createNumberedList ::
  "(int \<Rightarrow> AbstractNumbering) \<Rightarrow> NumberingManager \<Rightarrow> NumberingManager \<times> (numbering_error + int)" where
  "createNumberedList mk = createList mk"

definition createMultiLevelList ::
  "(int \<Rightarrow> AbstractNumbering) \<Rightarrow> NumberingManager \<Rightarrow> NumberingManager \<times> (numbering_error + int)" where
  "createMultiLevelList mk = createList mk"

definition createOutlineList ::
  "(int \<Rightarrow> AbstractNumbering) \<Rightarrow> NumberingManager \<Rightarrow> NumberingManager \<times> (numbering_error + int)" where
  "createOutlineList mk = createList mk"

definition createCustomList ::
  "(int \<Rightarrow> AbstractNumbering) \<Rightarrow> NumberingManager \<Rightarrow> NumberingManager \<times> (numbering_error + int)" where
  "createCustomList mk = createList mk"

definition createInstance ::
  "NumberingManager \<Rightarrow> int \<Rightarrow> NumberingManager \<times> (numbering_error + int)" where
  "createInstance m a =
     (if \<not> hasAbstractNumbering m a then (m, Inl (AbstractNumberingMissing a))
      else
        (let numId = nextNumId m;
             m1 = m\<lparr>nextNumId := numId + 1\<rparr>;
             instance = \<lparr>inst_numId = numId, inst_abstractNumId = a\<rparr>
         in case addInstance m1 instance of
              Inl e \<Rightarrow> (m1, Inl e)
            | Inr m2 \<Rightarrow> (m2, Inr numId)))"

definition initializeDefaultNumberings ::
  "(int \<Rightarrow> AbstractNumbering) \<Rightarrow> (int \<Rightarrow> AbstractNumbering) \<Rightarrow> NumberingManager \<Rightarrow> NumberingManager" where
  "initializeDefaultNumberings mkBullet mkNumbered m =
     (let a = nextAbstractNumId m;
          m1 = addAbstractNumbering (m\<lparr>nextAbstractNumId := a + 1\<rparr>) (mkBullet a);
          b = nextAbstractNumId m1
      in addAbstractNumbering (m1\<lparr>nextAbstractNumId := b + 1\<rparr>) (mkNumbered b))"

subsection \<open>Cleaning up unused numbering\<close>

record cleanup_result =
  instancesRemoved :: nat
  abstractsRemoved :: nat

text \<open>The two \<open>for\<close> loops: delete each collected key and count it.\<close>

fun delete_counting :: "int list \<Rightarrow> (int, 'v) jsmap \<Rightarrow> nat \<Rightarrow> (int, 'v) jsmap \<times> nat" where
  "delete_counting [] m removed = (m, removed)"
| "delete_counting (k # ks) m removed = delete_counting ks (Map_delete k m) (removed + 1)"

definition cleanupUnusedNumbering ::
  "NumberingManager \<Rightarrow> int set \<Rightarrow> NumberingManager \<times> cleanup_result" where
  "cleanupUnusedNumbering m usedNumIds =
     (let instancesToRemove =
            map fst (filter (\<lambda>(numId, instance). numId \<notin> usedNumIds) (instances m));
          (instances1, instancesRemoved1) = delete_counting instancesToRemove (instances m) 0;
          referencedAbstractNumIds = set (map (\<lambda>(numId, instance). inst_abstractNumId instance) instances1);
          abstractsToRemove =
            map fst (filter (\<lambda>(a, abstractNum). a \<notin> referencedAbstractNumIds) (abstractNumberings m));
          (abstracts1, abstractsRemoved1) = delete_counting abstractsToRemove (abstractNumberings m) 0
      in (m\<lparr>abstractNumberings := abstracts1, instances := instances1\<rparr>,
          \<lparr>instancesRemoved = instancesRemoved1, abstractsRemoved = abstractsRemoved1\<rparr>))"

text \<open>
  Every public operation that changes a manager, as one datatype, and the state a call
  leaves behind (also when the call throws).
\<close>

datatype numbering_op =
    AddAbstractNumbering AbstractNumbering
  | RemoveAbstractNumbering int
  | AddInstance NumberingInstance
  | RemoveInstance int
  | CreateList "int \<Rightarrow> AbstractNumbering"
  | CreateInstance int
  | SetListIndentation int number number "number option"
  | NormalizeListIndentation int
  | NormalizeAllListIndentation
  | Clear
  | CleanupUnusedNumbering "int set"
  | InitializeDefaultNumberings "int \<Rightarrow> AbstractNumbering" "int \<Rightarrow> AbstractNumbering"

fun state_after :: "numbering_op \<Rightarrow> NumberingManager \<Rightarrow> NumberingManager" where
  "state_after (AddAbstractNumbering a) m = addAbstractNumbering m a"
| "state_after (RemoveAbstractNumbering a) m = fst (removeAbstractNumbering m a)"
| "state_after (AddInstance i) m = (case addInstance m i of Inl e \<Rightarrow> m | Inr m' \<Rightarrow> m')"
| "state_after (RemoveInstance n) m = fst (removeInstance m n)"
| "state_after (CreateList mk) m = fst (createList mk m)"
| "state_after (CreateInstance a) m = fst (createInstance m a)"
| "state_after (SetListIndentation n l li hi) m = fst (setListIndentation m n l li hi)"
| "state_after (NormalizeListIndentation n) m = fst (normalizeListIndentation m n)"
| "state_after NormalizeAllListIndentation m = fst (normalizeAllListIndentation m)"
| "state_after Clear m = NumberingManager_clear m"
| "state_after (CleanupUnusedNumbering used) m = fst (cleanupUnusedNumbering m used)"
| "state_after (InitializeDefaultNumberings mkB mkN) m = initializeDefaultNumberings mkB mkN m"

text \<open>The invariant: every registered instance references a registered abstract numbering.\<close>

definition references_exist :: "NumberingManager \<Rightarrow> bool" where
  "references_exist m =
     list_all (\<lambda>(numId, instance). hasAbstractNumbering m (inst_abstractNumId instance)) (instances m)"

text \<open>
  The maps are keyed by the ids of what they hold: \<open>addAbstractNumbering\<close> and
  \<open>addInstance\<close> store an object under the id it carries, and a map holds a key once.
\<close>

definition stored_under_own_id :: "NumberingManager \<Rightarrow> bool" where
  "stored_under_own_id m =
     (distinct (Map_keys (abstractNumberings m)) \<and>
      distinct (Map_keys (instances m)) \<and>
      list_all (\<lambda>(k, a). abstractNumId a = k) (abstractNumberings m) \<and>
      list_all (\<lambda>(k, i). inst_numId i = k) (instances m))"

section \<open>ImageManager\<close>

subsection \<open>Images\<close>

text \<open>
  Modelled from the spec: the class \<open>Image\<close> (elements/Image.ts) is not among the sources.
  An image is an object with an identity (the manager's map is keyed by the object), an
  extension, a docPr id and a relationship id that the manager sets, and bytes that may
  not be loaded yet.  \<open>img_data\<close> is what \<open>getImageData()\<close> does: \<open>Inr n\<close> returns a buffer
  of \<open>n\<close> bytes, \<open>Inl msg\<close> throws \<open>Error(msg)\<close>; an image whose bytes are not loaded throws
  a message that contains \<open>not loaded\<close>.  Objects live in a heap indexed by reference.
\<close>

record Image =
  img_data :: "string + nat"
  img_extension :: string
  img_docPrId :: "nat option"
  img_relationshipId :: "string option"

type_synonym image_ref = nat

type_synonym image_heap = "image_ref \<Rightarrow> Image"

definition getImageData :: "Image \<Rightarrow> string + nat" where
  "getImageData img = img_data img"

definition getExtension :: "Image \<Rightarrow> string" where
  "getExtension img = img_extension img"

definition setDocPrId :: "nat \<Rightarrow> Image \<Rightarrow> Image" where
  "setDocPrId d img = img\<lparr>img_docPrId := Some d\<rparr>"

definition setRelationshipId :: "string \<Rightarrow> Image \<Rightarrow> Image" where
  "setRelationshipId r img = img\<lparr>img_relationshipId := Some r\<rparr>"

subsection \<open>The manager\<close>

record ImageEntry =
  entry_image :: image_ref
  entry_filename :: string
  entry_relationshipId :: string
  entry_docPrId :: nat

record ImageManager =
  images :: "(image_ref, ImageEntry) jsmap"
  imagesByRelId :: "(string, ImageEntry) jsmap"
  nextImageNumber :: nat
  nextDocPrId :: nat
  maxImageCount :: rat
  maxTotalImageSizeBytes :: rat
  maxSingleImageSizeBytes :: rat

record ImageManagerOptions =
  opt_maxImageCount :: "rat option"
  opt_maxTotalImageSizeMB :: "rat option"
  opt_maxSingleImageSizeMB :: "rat option"

definition ImageManager_new :: "ImageManagerOptions \<Rightarrow> ImageManager" where
  "ImageManager_new options =
     \<lparr>images = [], imagesByRelId = [], nextImageNumber = 1, nextDocPrId = 1,
      maxImageCount = (case opt_maxImageCount options of None \<Rightarrow> 20 | Some n \<Rightarrow> n),
      maxTotalImageSizeBytes =
        (case opt_maxTotalImageSizeMB options of None \<Rightarrow> 100 | Some n \<Rightarrow> n) * 1024 * 1024,
      maxSingleImageSizeBytes =
        (case opt_maxSingleImageSizeMB options of None \<Rightarrow> 20 | Some n \<Rightarrow> n) * 1024 * 1024\<rparr>"

text \<open>
  The errors \<open>registerImage\<close> and \<open>loadAllImageData\<close> throw.  The messages of the three
  quota errors start with figures printed by \<open>toFixed\<close> (floating point, not modelled) and
  end with fixed guidance, which \<open>remediation\<close> gives line by line.
\<close>

datatype image_error =
    MaxImageCountExceeded rat
  | SingleImageSizeExceeded nat rat
  | TotalImageSizeExceeded nat rat
  | ImageDataError string
  | InvalidConcurrency

fun remediation :: "image_error \<Rightarrow> string list" where
  "remediation (MaxImageCountExceeded n) =
     [''Reducing the number of images'',
      ''Increasing maxImageCount in DocumentOptions'',
      ''Splitting into multiple documents'']"
| "remediation (SingleImageSizeExceeded n limit) =
     [''Compressing the image'',
      ''Resizing to lower resolution'',
      ''Converting to a more efficient format (e.g., JPEG)'',
      ''Increasing maxSingleImageSizeMB in DocumentOptions'']"
| "remediation (TotalImageSizeExceeded n limit) =
     [''Compressing existing images'',
      ''Removing unnecessary images'',
      ''Increasing maxTotalImageSizeMB in DocumentOptions'',
      ''Splitting into multiple documents'']"
| "remediation (ImageDataError msg) = []"
| "remediation InvalidConcurrency = []"

definition getImageCount :: "ImageManager \<Rightarrow> nat" where
  "getImageCount m = Map_size (images m)"

definition getFilename :: "ImageManager \<Rightarrow> image_ref \<Rightarrow> string option" where
  "getFilename m img = map_option entry_filename (Map_get (images m) img)"

definition getAllImages :: "ImageManager \<Rightarrow> ImageEntry list" where
  "getAllImages m = Map_values (images m)"

definition hasImage :: "ImageManager \<Rightarrow> image_ref \<Rightarrow> bool" where
  "hasImage m img = Map_has (images m) img"

text \<open>\<open>getTotalSize\<close>: the bytes of the entries whose image is loaded; any throw is skipped.\<close>

fun totalSize_loop :: "image_heap \<Rightarrow> ImageEntry list \<Rightarrow> nat \<Rightarrow> nat" where
  "totalSize_loop h [] totalSize = totalSize"
| "totalSize_loop h (entry # rest) totalSize =
     (case getImageData (h (entry_image entry)) of
        Inr len \<Rightarrow> totalSize_loop h rest (totalSize + len)
      | Inl msg \<Rightarrow> totalSize_loop h rest totalSize)"

definition getTotalSize :: "image_heap \<Rightarrow> ImageManager \<Rightarrow> nat" where
  "getTotalSize h m = totalSize_loop h (Map_values (images m)) 0"

text \<open>
  The \<open>try\<close> block of \<open>registerImage\<close> with its \<open>catch\<close>: \<open>None\<close> when the block ends
  normally or the error is swallowed, \<open>Some e\<close> when an error leaves the block.  An error of
  \<open>getImageData\<close> is re-thrown unless its message contains \<open>not loaded\<close>.  The two size
  errors are thrown inside the same block and always re-thrown: their fixed text does not
  contain \<open>not loaded\<close>, and the printed figures hold no space.
\<close>

definition validateSize :: "image_heap \<Rightarrow> ImageManager \<Rightarrow> image_ref \<Rightarrow> image_error option" where
  "validateSize h m img =
     (case getImageData (h img) of
        Inl msg \<Rightarrow> (if \<not> string_includes msg ''not loaded'' then Some (ImageDataError msg) else None)
      | Inr len \<Rightarrow>
          if of_nat len > maxSingleImageSizeBytes m
          then Some (SingleImageSizeExceeded len (maxSingleImageSizeBytes m))
          else
            (let currentTotalSize = getTotalSize h m;
                 newTotalSize = currentTotalSize + len
             in if of_nat newTotalSize > maxTotalImageSizeBytes m
                then Some (TotalImageSizeExceeded newTotalSize (maxTotalImageSizeBytes m))
                else None))"

text \<open>
  \<open>registerImage\<close> returns the heap and the manager as the call leaves them, with the
  filename or the error thrown.  Every \<open>throw\<close> stands before the first assignment, so a
  failed call leaves both as they were.
\<close>

definition registerImage ::
  "image_heap \<Rightarrow> ImageManager \<Rightarrow> image_ref \<Rightarrow> string \<Rightarrow>
     (image_heap \<times> ImageManager) \<times> (image_error + string)" where
  "registerImage h m img relationshipId =
     (case Map_get (imagesByRelId m) relationshipId of
        Some existingByRelId \<Rightarrow>
          ((h, m\<lparr>images := Map_set img existingByRelId (images m)\<rparr>),
           Inr (entry_filename existingByRelId))
      | None \<Rightarrow>
          (case Map_get (images m) img of
             Some existing \<Rightarrow> ((h, m), Inr (entry_filename existing))
           | None \<Rightarrow>
               if of_nat (Map_size (images m)) \<ge> maxImageCount m
               then ((h, m), Inl (MaxImageCountExceeded (maxImageCount m)))
               else
                 (case validateSize h m img of
                    Some e \<Rightarrow> ((h, m), Inl e)
                  | None \<Rightarrow>
                      (let extension = getExtension (h img);
                           filename = ''image'' @ nat_toString (nextImageNumber m) @ ''.'' @ extension;
                           m1 = m\<lparr>nextImageNumber := nextImageNumber m + 1\<rparr>;
                           docPrId = nextDocPrId m1;
                           m2 = m1\<lparr>nextDocPrId := docPrId + 1\<rparr>;
                           h1 = h(img := setDocPrId docPrId (h img));
                           h2 = h1(img := setRelationshipId relationshipId (h1 img));
                           entry = \<lparr>entry_image = img, entry_filename = filename,
                                    entry_relationshipId = relationshipId, entry_docPrId = docPrId\<rparr>;
                           m3 = m2\<lparr>images := Map_set img entry (images m2)\<rparr>;
                           m4 = m3\<lparr>imagesByRelId := Map_set relationshipId entry (imagesByRelId m3)\<rparr>
                       in ((h2, m4), Inr filename)))))"

definition ImageManager_clear :: "ImageManager \<Rightarrow> ImageManager" where
  "ImageManager_clear m = m\<lparr>images := [], imagesByRelId := [], nextImageNumber := 1, nextDocPrId := 1\<rparr>"

text \<open>
  A client that makes one \<open>registerImage\<close> call after the other: \<open>registerAll\<close> notes
  for each call what it returned or threw and the image count after it.
\<close>

fun registerAll ::
  "image_heap \<Rightarrow> ImageManager \<Rightarrow> (image_ref \<times> string) list \<Rightarrow> ((image_error + string) \<times> nat) list" where
  "registerAll h m [] = []"
| "registerAll h m ((img, relationshipId) # calls) =
     (case registerImage h m img relationshipId of
        ((h', m'), r) \<Rightarrow> (r, getImageCount m') # registerAll h' m' calls)"

subsection \<open>Loading all image data\<close>

text \<open>
  \<open>loadAllImageData\<close> starts the loads of one batch together and waits for all of them.
  Each load ends in a continuation that runs without interruption.  The order in which the
  loads of a batch end is not fixed by the program: it is the parameter \<open>completion\<close>,
  which reorders each batch.  \<open>ensureDataLoaded\<close> (of the absent class \<open>Image\<close>) is the
  parameter \<open>load\<close>: \<open>Inr img\<close> is the image with its bytes loaded, \<open>Inl msg\<close> a rejection.

  \<open>onProgress\<close> is optional and is code of the caller: it may return or throw.  A
  callback is a function of the calls made to it so far, the present one last; \<open>None\<close>
  says that it returns, \<open>Some msg\<close> that it throws an error with this message.  The calls
  are recorded in \<open>progress\<close>.
\<close>

type_synonym progress_callback = "(nat \<times> nat) list \<Rightarrow> string option"

text \<open>
  \<open>rejected\<close> is the error with which the promise of a continuation was rejected, the
  first one if there are several: \<open>Promise.all\<close>, and with it \<open>loadAllImageData\<close>, is
  rejected with it.
\<close>

record load_state =
  ls_heap :: image_heap
  loaded :: nat
  progress :: "(nat \<times> nat) list"
  warnings :: "string list"
  rejected :: "string option"

text \<open>\<open>if (onProgress) { onProgress(loaded, total); }\<close>: the state after the call, and
  what the call threw.\<close>

definition report :: "progress_callback option \<Rightarrow> nat \<Rightarrow> load_state \<Rightarrow> load_state \<times> string option" where
  "report onProgress total_n st =
     (case onProgress of
        None \<Rightarrow> (st, None)
      | Some callback \<Rightarrow>
          (let calls = progress st @ [(loaded st, total_n)]
           in (st\<lparr>progress := calls\<rparr>, callback calls)))"

text \<open>
  The \<open>catch\<close> block.  It catches what \<open>ensureDataLoaded\<close> threw and also what
  \<open>onProgress\<close> threw in the \<open>try\<close> block, after \<open>loaded++\<close>.  What \<open>onProgress\<close> throws
  inside the \<open>catch\<close> block leaves the continuation and rejects its promise.
\<close>

definition load_failed :: "progress_callback option \<Rightarrow> nat \<Rightarrow> string \<Rightarrow> load_state \<Rightarrow> load_state" where
  "load_failed onProgress total_n msg st =
     (case report onProgress total_n
             (st\<lparr>warnings := warnings st @ [''Failed to load image data: '' @ msg],
                 loaded := loaded st + 1\<rparr>) of
        (st1, None) \<Rightarrow> st1
      | (st1, Some thrown) \<Rightarrow>
          st1\<lparr>rejected := (case rejected st1 of None \<Rightarrow> Some thrown | Some first \<Rightarrow> Some first)\<rparr>)"

definition load_one ::
  "(Image \<Rightarrow> string + Image) \<Rightarrow> progress_callback option \<Rightarrow> nat \<Rightarrow> ImageEntry \<Rightarrow>
     load_state \<Rightarrow> load_state" where
  "load_one load onProgress total_n entry st =
     (case load (ls_heap st (entry_image entry)) of
        Inr img \<Rightarrow>
          (case report onProgress total_n
                  (st\<lparr>ls_heap := (ls_heap st)(entry_image entry := img),
                      loaded := loaded st + 1\<rparr>) of
             (st1, None) \<Rightarrow> st1
           | (st1, Some thrown) \<Rightarrow> load_failed onProgress total_n thrown st1)
      | Inl msg \<Rightarrow> load_failed onProgress total_n msg st)"

definition slice :: "'a list \<Rightarrow> nat \<Rightarrow> nat \<Rightarrow> 'a list" where
  "slice xs i j = take (j - i) (drop i xs)"

text \<open>
  The \<open>for\<close> loop over the batches.  Every continuation of a batch runs, also after one
  of them was rejected (the loads were started together); the rejection ends the loop at
  the \<open>await\<close>, so no further batch is started.
\<close>

function load_batches ::
  "(Image \<Rightarrow> string + Image) \<Rightarrow> (ImageEntry list \<Rightarrow> ImageEntry list) \<Rightarrow>
     progress_callback option \<Rightarrow> nat \<Rightarrow> ImageEntry list \<Rightarrow> nat \<Rightarrow> load_state \<Rightarrow> load_state" where
  "load_batches load completion onProgress concurrency entries i st =
     (if i < length entries \<and> 0 < concurrency
      then
        (let batch = slice entries i (min (i + concurrency) (length entries));
             st1 = fold (load_one load onProgress (length entries)) (completion batch) st
         in if rejected st1 \<noteq> None then st1
            else load_batches load completion onProgress concurrency entries (i + concurrency) st1)
      else st)"
  by pat_completeness auto
termination
  by (relation "measure (\<lambda>(load, completion, onProgress, concurrency, entries, i, st). length entries - i)")
     auto

declare load_batches.simps [simp del]

text \<open>
  \<open>Inl\<close> is the error thrown before anything is loaded.  \<open>Inr st\<close> is a run of the
  loop: the promise returned is fulfilled when \<open>rejected st\<close> is \<open>None\<close> and rejected with
  that error otherwise.
\<close>

definition loadAllImageData ::
  "(Image \<Rightarrow> string + Image) \<Rightarrow> (ImageEntry list \<Rightarrow> ImageEntry list) \<Rightarrow>
     image_heap \<Rightarrow> ImageManager \<Rightarrow> number option \<Rightarrow> progress_callback option \<Rightarrow>
     image_error + load_state" where
  "loadAllImageData load completion h m concurrencyOpt onProgress =
     (let concurrency = (case concurrencyOpt of None \<Rightarrow> Finite 5 | Some c \<Rightarrow> c);
          entries = Map_values (images m);
          total_n = length entries;
          st0 = \<lparr>ls_heap = h, loaded = 0, progress = [], warnings = [], rejected = None\<rparr>
      in if total_n = 0 then Inr st0
         else if number_less concurrency 1 \<or> number_greater concurrency 50 \<or> \<not> isInteger concurrency
         then Inl InvalidConcurrency
         else
           (case concurrency of
              Finite q \<Rightarrow> Inr (load_batches load completion onProgress (nat \<lfloor>q\<rfloor>) entries 0 st0)
            | _ \<Rightarrow> Inl InvalidConcurrency))"

subsection \<open>Releasing image data, renumbering and the manager's operations\<close>

text \<open>
  \<open>releaseAllImageData\<close> calls \<open>releaseData\<close> on the image of every entry.  What
  \<open>releaseData\<close> (of the absent class \<open>Image\<close>) does to an image is the parameter \<open>release\<close>.
\<close>

definition releaseAllImageData :: "(Image \<Rightarrow> Image) \<Rightarrow> image_heap \<Rightarrow> ImageManager \<Rightarrow> image_heap" where
  "releaseAllImageData release h m =
     fold (\<lambda>entry h'. h'(entry_image entry := release (h' (entry_image entry))))
       (Map_values (images m)) h"

text \<open>
  \<open>initializeFromLoadedImages\<close> reads a number off each filename with
  \<open>filename.match(/image(\d+)\./)\<close>: the leftmost place where \<open>image\<close> is followed by one or
  more digits and a dot; the digits are the longest run there, as a shorter run is
  followed by a digit and not by the dot.  \<open>parseInt\<close> reads the digits in base 10.
\<close>

definition isDigit :: "char \<Rightarrow> bool" where
  "isDigit c = (c \<in> set ''0123456789'')"

definition parseInt :: "string \<Rightarrow> nat" where
  "parseInt ds = fold (\<lambda>c n. 10 * n + (of_char c - 48)) ds 0"

fun match_image_number :: "string \<Rightarrow> string option" where
  "match_image_number [] = None"
| "match_image_number (c # cs) =
     (let rest = drop 5 (c # cs);
          ds = takeWhile isDigit rest
      in if startsWith (c # cs) ''image'' \<and> ds \<noteq> [] \<and> startsWith (dropWhile isDigit rest) ''.''
         then Some ds
         else match_image_number cs)"

fun maxNumber_loop :: "ImageEntry list \<Rightarrow> nat \<Rightarrow> nat" where
  "maxNumber_loop [] maxNumber = maxNumber"
| "maxNumber_loop (entry # rest) maxNumber =
     (case match_image_number (entry_filename entry) of
        Some ds \<Rightarrow>
          (let num = parseInt ds
           in maxNumber_loop rest (if num > maxNumber then num else maxNumber))
      | None \<Rightarrow> maxNumber_loop rest maxNumber)"

definition initializeFromLoadedImages :: "ImageManager \<Rightarrow> ImageManager" where
  "initializeFromLoadedImages m =
     m\<lparr>nextImageNumber := maxNumber_loop (Map_values (images m)) 0 + 1\<rparr>"

text \<open>
  The operations of the manager that change it or the image objects, as one datatype, and
  the heap and the manager a call leaves behind (also when the call throws).  The
  operations that need a parameter of the model (how a load ends, what releasing does)
  carry it.
\<close>

datatype image_op =
    RegisterImage image_ref string
  | LoadAllImageData "Image \<Rightarrow> string + Image" "ImageEntry list \<Rightarrow> ImageEntry list"
      "number option" "progress_callback option"
  | ReleaseAllImageData "Image \<Rightarrow> Image"
  | InitializeFromLoadedImages
  | ClearImages

fun images_after :: "image_op \<Rightarrow> image_heap \<times> ImageManager \<Rightarrow> image_heap \<times> ImageManager" where
  "images_after (RegisterImage img relationshipId) (h, m) = fst (registerImage h m img relationshipId)"
| "images_after (LoadAllImageData load completion concurrencyOpt onProgress) (h, m) =
     (case loadAllImageData load completion h m concurrencyOpt onProgress of
        Inl e \<Rightarrow> (h, m)
      | Inr st \<Rightarrow> (ls_heap st, m))"
| "images_after (ReleaseAllImageData release) (h, m) = (releaseAllImageData release h m, m)"
| "images_after InitializeFromLoadedImages (h, m) = (h, initializeFromLoadedImages m)"
| "images_after ClearImages (h, m) = (h, ImageManager_clear m)"

section \<open>CommentManager\<close>

text \<open>
  Modelled from the spec: the class \<open>Comment\<close> (elements/Comment.ts) is not among the
  sources.  A comment has an id (set by the manager), author, initials, date, text and an
  optional parent id; it is a reply when it has a parent id.  \<open>Comment.create\<close> builds a
  top-level comment and \<open>Comment.createReply\<close> a reply to the given parent id; neither
  looks at a manager.  The content (text or runs) is kept as its text and the date is a
  parameter.  A comment object is taken to be registered once, so the references the
  manager keeps to it are modelled by its value.
\<close>

record Comment =
  cmt_id :: int
  cmt_author :: string
  cmt_initials :: string
  cmt_date :: int
  cmt_text :: string
  cmt_parentId :: "int option"

definition getId :: "Comment \<Rightarrow> int" where
  "getId c = cmt_id c"

definition setId :: "int \<Rightarrow> Comment \<Rightarrow> Comment" where
  "setId i c = c\<lparr>cmt_id := i\<rparr>"

definition getParentId :: "Comment \<Rightarrow> int option" where
  "getParentId c = cmt_parentId c"

definition isReply :: "Comment \<Rightarrow> bool" where
  "isReply c = (cmt_parentId c \<noteq> None)"

definition Comment_create :: "string \<Rightarrow> string \<Rightarrow> string \<Rightarrow> int \<Rightarrow> Comment" where
  "Comment_create author content initials now =
     \<lparr>cmt_id = 0, cmt_author = author, cmt_initials = initials, cmt_date = now,
      cmt_text = content, cmt_parentId = None\<rparr>"

definition Comment_createReply :: "int \<Rightarrow> string \<Rightarrow> string \<Rightarrow> string \<Rightarrow> int \<Rightarrow> Comment" where
  "Comment_createReply parentId author content initials now =
     \<lparr>cmt_id = 0, cmt_author = author, cmt_initials = initials, cmt_date = now,
      cmt_text = content, cmt_parentId = Some parentId\<rparr>"

record CommentEntry =
  comment :: Comment
  replies :: "Comment list"

record CommentManager =
  comments :: "(int, CommentEntry) jsmap"
  nextId :: int

datatype comment_error = ParentCommentMissing int

definition CommentManager_new :: CommentManager where
  "CommentManager_new = \<lparr>comments = [], nextId = 0\<rparr>"

definition register :: "CommentManager \<Rightarrow> Comment \<Rightarrow> CommentManager \<times> Comment" where
  "register m comment0 =
     (let comment1 = setId (nextId m) comment0;
          m1 = m\<lparr>nextId := nextId m + 1\<rparr>;
          entry = \<lparr>comment = comment1, replies = []\<rparr>;
          m2 = m1\<lparr>comments := Map_set (getId comment1) entry (comments m1)\<rparr>
      in if isReply comment1 \<and> getParentId comment1 \<noteq> None
         then
           (case Map_get (comments m2) (the (getParentId comment1)) of
              Some parentEntry \<Rightarrow>
                (m2\<lparr>comments :=
                      Map_set (the (getParentId comment1))
                        (parentEntry\<lparr>replies := replies parentEntry @ [comment1]\<rparr>)
                        (comments m2)\<rparr>,
                 comment1)
            | None \<Rightarrow> (m2, comment1))
         else (m2, comment1))"

definition getComment :: "CommentManager \<Rightarrow> int \<Rightarrow> Comment option" where
  "getComment m i = map_option comment (Map_get (comments m) i)"

definition getAllComments :: "CommentManager \<Rightarrow> Comment list" where
  "getAllComments m = map comment (filter (\<lambda>entry. \<not> isReply (comment entry)) (Map_values (comments m)))"

definition getAllCommentsWithReplies :: "CommentManager \<Rightarrow> Comment list" where
  "getAllCommentsWithReplies m = map comment (Map_values (comments m))"

definition getReplies :: "CommentManager \<Rightarrow> int \<Rightarrow> Comment list" where
  "getReplies m commentId = (case Map_get (comments m) commentId of Some entry \<Rightarrow> replies entry | None \<Rightarrow> [])"

definition hasReplies :: "CommentManager \<Rightarrow> int \<Rightarrow> bool" where
  "hasReplies m commentId =
     (case Map_get (comments m) commentId of Some entry \<Rightarrow> length (replies entry) > 0 | None \<Rightarrow> False)"

definition getCount :: "CommentManager \<Rightarrow> nat" where
  "getCount m = Map_size (comments m)"

text \<open>
  \<open>removeComment\<close>: the loop deletes the key of every reply of the entry, then the last
  line deletes the key \<open>id\<close> and returns what \<open>Map.delete\<close> returns, that is whether the key
  was still there.
\<close>

definition removeComment :: "CommentManager \<Rightarrow> int \<Rightarrow> CommentManager \<times> bool" where
  "removeComment m i =
     (case Map_get (comments m) i of
        None \<Rightarrow> (m, False)
      | Some entry \<Rightarrow>
          (let comments1 = fold (\<lambda>reply cs. Map_delete (getId reply) cs) (replies entry) (comments m)
           in (m\<lparr>comments := Map_delete i comments1\<rparr>, Map_has comments1 i)))"

definition CommentManager_clear :: "CommentManager \<Rightarrow> CommentManager" where
  "CommentManager_clear m = m\<lparr>comments := [], nextId := 0\<rparr>"

definition createComment ::
  "CommentManager \<Rightarrow> string \<Rightarrow> string \<Rightarrow> string \<Rightarrow> int \<Rightarrow> CommentManager \<times> Comment" where
  "createComment m author content initials now =
     register m (Comment_create author content initials now)"

definition createReply ::
  "CommentManager \<Rightarrow> int \<Rightarrow> string \<Rightarrow> string \<Rightarrow> string \<Rightarrow> int \<Rightarrow>
     CommentManager \<times> (comment_error + Comment)" where
  "createReply m parentCommentId author content initials now =
     (if \<not> Map_has (comments m) parentCommentId
      then (m, Inl (ParentCommentMissing parentCommentId))
      else
        (let reply = Comment_createReply parentCommentId author content initials now
         in case register m reply of (m', c) \<Rightarrow> (m', Inr c)))"

text \<open>
  The operations that change a comment manager, and the invariant of the id counter:
  every registered id is below \<open>nextId\<close>.
\<close>

datatype comment_op =
    Register Comment
  | CreateComment string string string int
  | CreateReply int string string string int
  | RemoveComment int
  | ClearComments

fun comments_after :: "comment_op \<Rightarrow> CommentManager \<Rightarrow> CommentManager" where
  "comments_after (Register c) m = fst (register m c)"
| "comments_after (CreateComment a t i d) m = fst (createComment m a t i d)"
| "comments_after (CreateReply p a t i d) m = fst (createReply m p a t i d)"
| "comments_after (RemoveComment i) m = fst (removeComment m i)"
| "comments_after ClearComments m = CommentManager_clear m"

definition ids_below_next :: "CommentManager \<Rightarrow> bool" where
  "ids_below_next m = list_all (\<lambda>(k, entry). k < nextId m) (comments m)"

section \<open>TableOfContents\<close>

subsection \<open>XML elements\<close>

text \<open>
  The interface \<open>XMLElement\<close> of xml/XMLBuilder.ts is not among the sources; the object
  literals of \<open>toXML\<close> show its shape: a name, optional attributes, optional children
  (elements or strings) and an optional \<open>selfClosing\<close> flag.  A missing attribute object
  is the empty list, a missing flag is \<open>False\<close>.
\<close>

datatype XMLElement =
    XMLElement (xml_name: string) (xml_attributes: "(string \<times> string) list")
      (xml_children: "XMLElement list") (xml_selfClosing: bool)
  | XMLText string

definition backslash :: char where
  "backslash = CHR 0x5C"

definition dquote :: char where
  "dquote = CHR 0x22"

subsection \<open>Properties and construction\<close>

datatype TabLeader = Dot | Hyphen | Underscore | NoLeader

datatype NumberingFormat = Decimal | Roman | Alpha

record TOCProperties =
  p_title :: "string option"
  p_levels :: "number option"
  p_includeStyles :: "string list option"
  p_showPageNumbers :: "bool option"
  p_rightAlignPageNumbers :: "bool option"
  p_useHyperlinks :: "bool option"
  p_style :: "string option"
  p_tabLeader :: "TabLeader option"
  p_fieldSwitches :: "string option"
  p_numbered :: "bool option"
  p_numberingFormat :: "NumberingFormat option"
  p_noIndent :: "bool option"
  p_customIndents :: "number list option"
  p_spaceBetweenEntries :: "number option"
  p_hyperlinkColor :: "string option"

record TableOfContents =
  title :: string
  levels :: number
  includeStyles :: "string list option"
  showPageNumbers :: bool
  useHyperlinks :: bool
  tabLeader :: TabLeader
  fieldSwitches :: "string option"
  numbered :: bool
  numberingFormat :: NumberingFormat
  noIndent :: bool
  customIndents :: "number list option"
  spaceBetweenEntries :: number
  hyperlinkColor :: string

datatype toc_error = LevelsOutOfRange | FieldStructureIncomplete nat

text \<open>
  \<open>a || b\<close> takes \<open>b\<close> when \<open>a\<close> is missing or falsy: the empty string, the numbers 0
  and \<open>NaN\<close>, \<open>false\<close>.
\<close>

definition or_string :: "string option \<Rightarrow> string \<Rightarrow> string" where
  "or_string a b = (case a of None \<Rightarrow> b | Some s \<Rightarrow> if s = [] then b else s)"

definition or_number :: "number option \<Rightarrow> number \<Rightarrow> number" where
  "or_number a b = (case a of None \<Rightarrow> b | Some n \<Rightarrow> if number_falsy n then b else n)"

definition or_false :: "bool option \<Rightarrow> bool" where
  "or_false a = (a = Some True)"

definition TableOfContents_new :: "TOCProperties \<Rightarrow> TableOfContents" where
  "TableOfContents_new properties =
     \<lparr>title = or_string (p_title properties) ''Table of Contents'',
      levels = or_number (p_levels properties) (Finite 3),
      includeStyles = p_includeStyles properties,
      showPageNumbers = (p_showPageNumbers properties \<noteq> Some False),
      useHyperlinks = or_false (p_useHyperlinks properties),
      tabLeader = (case p_tabLeader properties of None \<Rightarrow> Dot | Some l \<Rightarrow> l),
      fieldSwitches = p_fieldSwitches properties,
      numbered = or_false (p_numbered properties),
      numberingFormat = (case p_numberingFormat properties of None \<Rightarrow> Decimal | Some f \<Rightarrow> f),
      noIndent = or_false (p_noIndent properties),
      customIndents = p_customIndents properties,
      spaceBetweenEntries = or_number (p_spaceBetweenEntries properties) (Finite 0),
      hyperlinkColor = or_string (p_hyperlinkColor properties) ''0000FF''\<rparr>"

definition getLevels :: "TableOfContents \<Rightarrow> number" where
  "getLevels toc = levels toc"

text \<open>
  The parameter \<open>levels\<close> has the type \<open>number\<close>, and the guard is the two comparisons
  \<open>levels < 1 || levels > 9\<close> and nothing else.
\<close>

definition setLevels :: "TableOfContents \<Rightarrow> number \<Rightarrow> toc_error + TableOfContents" where
  "setLevels toc n =
     (if number_less n 1 \<or> number_greater n 9 then Inl LevelsOutOfRange
      else Inr (toc\<lparr>levels := n\<rparr>))"

definition setTitle :: "TableOfContents \<Rightarrow> string \<Rightarrow> TableOfContents" where
  "setTitle toc t = toc\<lparr>title := t\<rparr>"

definition configure :: "TableOfContents \<Rightarrow> TOCProperties \<Rightarrow> TableOfContents" where
  "configure toc options =
     (let t1 = (case p_title options of Some v \<Rightarrow> toc\<lparr>title := v\<rparr> | None \<Rightarrow> toc);
          t2 = (case p_levels options of Some v \<Rightarrow> t1\<lparr>levels := v\<rparr> | None \<Rightarrow> t1);
          t3 = (case p_includeStyles options of Some v \<Rightarrow> t2\<lparr>includeStyles := Some v\<rparr> | None \<Rightarrow> t2);
          t4 = (case p_showPageNumbers options of Some v \<Rightarrow> t3\<lparr>showPageNumbers := v\<rparr> | None \<Rightarrow> t3);
          t5 = (case p_useHyperlinks options of Some v \<Rightarrow> t4\<lparr>useHyperlinks := v\<rparr> | None \<Rightarrow> t4);
          t6 = (case p_tabLeader options of Some v \<Rightarrow> t5\<lparr>tabLeader := v\<rparr> | None \<Rightarrow> t5);
          t7 = (case p_fieldSwitches options of Some v \<Rightarrow> t6\<lparr>fieldSwitches := Some v\<rparr> | None \<Rightarrow> t6);
          t8 = (case p_numbered options of Some v \<Rightarrow> t7\<lparr>numbered := v\<rparr> | None \<Rightarrow> t7);
          t9 = (case p_numberingFormat options of Some v \<Rightarrow> t8\<lparr>numberingFormat := v\<rparr> | None \<Rightarrow> t8);
          t10 = (case p_noIndent options of Some v \<Rightarrow> t9\<lparr>noIndent := v\<rparr> | None \<Rightarrow> t9);
          t11 = (case p_customIndents options of Some v \<Rightarrow> t10\<lparr>customIndents := Some v\<rparr> | None \<Rightarrow> t10);
          t12 = (case p_spaceBetweenEntries options of Some v \<Rightarrow> t11\<lparr>spaceBetweenEntries := v\<rparr> | None \<Rightarrow> t11)
      in case p_hyperlinkColor options of Some v \<Rightarrow> t12\<lparr>hyperlinkColor := v\<rparr> | None \<Rightarrow> t12)"

subsection \<open>The field instruction and the XML of the field\<close>

fun join :: "string \<Rightarrow> string list \<Rightarrow> string" where
  "join sep [] = []"
| "join sep [s] = s"
| "join sep (s # t # rest) = s @ sep @ join sep (t # rest)"

definition leaderMap :: "TabLeader \<Rightarrow> string" where
  "leaderMap l = (case l of Hyphen \<Rightarrow> ''h'' | Underscore \<Rightarrow> ''u'' | NoLeader \<Rightarrow> ''n'' | Dot \<Rightarrow> ''undefined'')"

definition buildFieldInstruction :: "TableOfContents \<Rightarrow> string" where
  "buildFieldInstruction toc =
     (let i0 = ''TOC'';
          i1 = (case includeStyles toc of
                  Some styles \<Rightarrow>
                    if length styles > 0
                    then i0 @ '' '' @ [backslash] @ ''t '' @
                           join '' '' (map (\<lambda>s. [dquote] @ s @ [dquote] @ '',1'') styles)
                    else i0 @ '' '' @ [backslash] @ ''o '' @ [dquote] @ ''1-'' @
                           number_toString (levels toc) @ [dquote]
                | None \<Rightarrow>
                    i0 @ '' '' @ [backslash] @ ''o '' @ [dquote] @ ''1-'' @
                      number_toString (levels toc) @ [dquote]);
          i2 = (if useHyperlinks toc then i1 @ '' '' @ [backslash] @ ''h'' else i1);
          i3 = (if \<not> showPageNumbers toc then i2 @ '' '' @ [backslash] @ ''n'' else i2);
          i4 = (if tabLeader toc \<noteq> Dot
                then i3 @ '' '' @ [backslash] @ ''p '' @ [dquote] @ leaderMap (tabLeader toc) @ [dquote]
                else i3);
          i5 = (case fieldSwitches toc of
                  Some fs \<Rightarrow> if fs \<noteq> [] then i4 @ '' '' @ fs else i4
                | None \<Rightarrow> i4)
      in i5 @ '' '' @ [backslash] @ ''* MERGEFORMAT'')"

definition push :: "'a list \<Rightarrow> 'a \<Rightarrow> 'a list" where
  "push xs x = xs @ [x]"

definition titleParagraph :: "string \<Rightarrow> XMLElement" where
  "titleParagraph t =
     XMLElement ''w:p'' []
       [XMLElement ''w:pPr'' []
          [XMLElement ''w:pStyle'' [(''w:val'', ''TOCHeading'')] [] True] False,
        XMLElement ''w:r'' [] [XMLElement ''w:t'' [] [XMLText t] False] False]
       False"

definition fldCharRun :: "string \<Rightarrow> XMLElement" where
  "fldCharRun fldCharType =
     XMLElement ''w:r'' []
       [XMLElement ''w:fldChar'' [(''w:fldCharType'', fldCharType)] [] True] False"

definition instrTextRun :: "string \<Rightarrow> XMLElement" where
  "instrTextRun instruction =
     XMLElement ''w:r'' []
       [XMLElement ''w:instrText'' [(''xml:space'', ''preserve'')] [XMLText instruction] False] False"

definition contentRun :: XMLElement where
  "contentRun =
     XMLElement ''w:r'' []
       [XMLElement ''w:rPr'' [] [XMLElement ''w:noProof'' [] [] True] False,
        XMLElement ''w:t'' [] [XMLText ''Right-click to update field.''] False]
       False"

text \<open>The check that \<open>toXML\<close> makes on the field paragraph before it returns it.\<close>

definition validateFieldStructure :: "XMLElement \<Rightarrow> toc_error + XMLElement" where
  "validateFieldStructure tocParagraph =
     (if length (xml_children tocParagraph) \<noteq> 5
      then Inl (FieldStructureIncomplete (length (xml_children tocParagraph)))
      else Inr tocParagraph)"

definition toXML :: "TableOfContents \<Rightarrow> toc_error + XMLElement list" where
  "toXML toc =
     (let elements0 = (if title toc \<noteq> [] then push [] (titleParagraph (title toc)) else []);
          c1 = push [] (fldCharRun ''begin'');
          c2 = push c1 (instrTextRun (buildFieldInstruction toc));
          c3 = push c2 (fldCharRun ''separate'');
          c4 = push c3 contentRun;
          c5 = push c4 (fldCharRun ''end'');
          tocParagraph = XMLElement ''w:p'' [] c5 False
      in case validateFieldStructure tocParagraph of
           Inl e \<Rightarrow> Inl e
         | Inr p \<Rightarrow> Inr (push elements0 p))"

text \<open>
  The five stages of a complex field, in the spec's words: a begin marker, the
  instruction text, a separate marker, cached result content and an end marker.
  \<open>stage_of\<close> reads the stage off a run: a run holding a \<open>w:fldChar\<close> is the marker its
  \<open>w:fldCharType\<close> names, a run holding \<open>w:instrText\<close> is the instruction with its text,
  any other run is cached content.
\<close>

datatype field_stage = Begin | Instruction string | Separate | CachedContent | End | NotAStage

fun text_of :: "XMLElement list \<Rightarrow> string" where
  "text_of [] = []"
| "text_of (XMLText s # rest) = s @ text_of rest"
| "text_of (XMLElement n a c sc # rest) = text_of rest"

fun stage_of :: "XMLElement \<Rightarrow> field_stage" where
  "stage_of (XMLText s) = NotAStage"
| "stage_of (XMLElement n a c sc) =
     (if n \<noteq> ''w:r'' then NotAStage
      else
        (case c of
           [XMLElement n1 a1 c1 sc1] \<Rightarrow>
             if n1 = ''w:fldChar'' then
               (if map_of a1 ''w:fldCharType'' = Some ''begin'' then Begin
                else if map_of a1 ''w:fldCharType'' = Some ''separate'' then Separate
                else if map_of a1 ''w:fldCharType'' = Some ''end'' then End
                else NotAStage)
             else if n1 = ''w:instrText'' then Instruction (text_of c1)
             else CachedContent
         | _ \<Rightarrow> CachedContent))"

section \<open>Concrete states used to instantiate the theorems\<close>

definition example_levels :: "NumberingLevel list" where
  "example_levels =
     [\<lparr>lvl_level = 0, lvl_format = ''decimal'', lvl_text = ''%1.'',
        lvl_leftIndent = Finite 100, lvl_hangingIndent = Finite 0\<rparr>,
      \<lparr>lvl_level = 1, lvl_format = ''lowerLetter'', lvl_text = ''%2.'',
        lvl_leftIndent = Finite 1440, lvl_hangingIndent = Finite 360\<rparr>]"

definition example_numbering :: NumberingManager where
  "example_numbering =
     \<lparr>abstractNumberings =
        [(0, \<lparr>abstractNumId = 0, abs_levels = example_levels\<rparr>),
         (1, \<lparr>abstractNumId = 1, abs_levels = []\<rparr>)],
      instances =
        [(1, \<lparr>inst_numId = 1, inst_abstractNumId = 0\<rparr>),
         (2, \<lparr>inst_numId = 2, inst_abstractNumId = 0\<rparr>),
         (3, \<lparr>inst_numId = 3, inst_abstractNumId = 1\<rparr>)],
      nextAbstractNumId = 2, nextNumId = 4\<rparr>"

definition example_numbering_mutated :: NumberingManager where
  "example_numbering_mutated = fst (setListIndentation example_numbering 1 (Finite 1) (Finite 5000) (Some (Finite 7)))"

definition default_options :: ImageManagerOptions where
  "default_options =
     \<lparr>opt_maxImageCount = None, opt_maxTotalImageSizeMB = None, opt_maxSingleImageSizeMB = None\<rparr>"

definition example_image :: Image where
  "example_image =
     \<lparr>img_data = Inr 1000, img_extension = ''png'', img_docPrId = None, img_relationshipId = None\<rparr>"

definition example_heap :: image_heap where
  "example_heap = (\<lambda>r. example_image)"

text \<open>Image 0 is registered before its bytes are loaded; they are loaded afterwards and
  take 30 000 000 bytes, more than the default limit of 20 MB for one image.\<close>

definition example_heap_unloaded :: image_heap where
  "example_heap_unloaded = (\<lambda>r. example_image\<lparr>img_data := Inl ''Image data not loaded''\<rparr>)"

definition example_manager_lazy :: ImageManager where
  "example_manager_lazy =
     snd (fst (registerImage example_heap_unloaded (ImageManager_new default_options) 0 ''rId1''))"

definition example_heap_loaded :: image_heap where
  "example_heap_loaded =
     (\<lambda>r. (fst (fst (registerImage example_heap_unloaded (ImageManager_new default_options) 0 ''rId1'')) r)
              \<lparr>img_data := Inr 30000000\<rparr>)"

text \<open>Seven registered images; the load of the image with extension \<open>bad\<close> fails, and
  the loads of a batch end in the reverse of the order in which they started.\<close>

definition example_entry :: "nat \<Rightarrow> ImageEntry" where
  "example_entry i =
     \<lparr>entry_image = i, entry_filename = ''image'' @ nat_toString (i + 1) @ ''.png'',
      entry_relationshipId = ''rId'' @ nat_toString (i + 1), entry_docPrId = i + 1\<rparr>"

definition example_manager_seven :: ImageManager where
  "example_manager_seven =
     (ImageManager_new default_options)
       \<lparr>images := map (\<lambda>i. (i, example_entry i)) [0, 1, 2, 3, 4, 5, 6],
        imagesByRelId := map (\<lambda>i. (entry_relationshipId (example_entry i), example_entry i))
                           [0, 1, 2, 3, 4, 5, 6],
        nextImageNumber := 8, nextDocPrId := 8\<rparr>"

definition example_heap_seven :: image_heap where
  "example_heap_seven =
     (\<lambda>r. example_image\<lparr>img_data := Inl ''Image data not loaded'',
                           img_extension := (if r = 4 then ''bad'' else ''png'')\<rparr>)"

definition example_load :: "Image \<Rightarrow> string + Image" where
  "example_load img =
     (if img_extension img = ''bad'' then Inl ''file missing'' else Inr (img\<lparr>img_data := Inr 10\<rparr>))"

text \<open>A progress callback that throws on its first call and returns from every later one.\<close>

definition throws_on_first_call :: progress_callback where
  "throws_on_first_call calls = (if length calls = 1 then Some ''not ready'' else None)"

text \<open>Operations made between two registrations of \<open>rId1\<close>: another image is
  registered, the filename numbers are re-initialised, all data is loaded with a
  callback that throws once, and released.\<close>

definition example_ops :: "image_op list" where
  "example_ops =
     [RegisterImage 1 ''rId2'',
      InitializeFromLoadedImages,
      LoadAllImageData example_load rev (Some (Finite 2)) (Some throws_on_first_call),
      ReleaseAllImageData (\<lambda>img. img\<lparr>img_data := Inl ''Image data not loaded''\<rparr>),
      RegisterImage 1 ''rId3'']"

text \<open>A thread: comment 0 with the replies 1 and 2, and the top-level comment 3.\<close>

definition example_thread :: CommentManager where
  "example_thread =
     fold comments_after
       [CreateComment ''Ann'' ''Please check'' ''A'' 100,
        CreateReply 0 ''Bob'' ''Done'' ''B'' 101,
        CreateReply 0 ''Ann'' ''Thanks'' ''A'' 102,
        CreateComment ''Cy'' ''Typo here'' ''C'' 103]
       CommentManager_new"

text \<open>A fresh manager in which a reply to the id 0 is registered directly: the reply
  receives the id 0 itself.\<close>

definition example_self_reply :: CommentManager where
  "example_self_reply =
     fst (register CommentManager_new (Comment_createReply 0 ''Ann'' ''Note'' ''A'' 100))"

definition no_properties :: TOCProperties where
  "no_properties =
     \<lparr>p_title = None, p_levels = None, p_includeStyles = None, p_showPageNumbers = None,
      p_rightAlignPageNumbers = None, p_useHyperlinks = None, p_style = None,
      p_tabLeader = None, p_fieldSwitches = None, p_numbered = None, p_numberingFormat = None,
      p_noIndent = None, p_customIndents = None, p_spaceBetweenEntries = None,
      p_hyperlinkColor = None\<rparr>"

section \<open>Facts about maps\<close>

lemma map_of_Map_set: "map_of (Map_set k v m) = (map_of m)(k \<mapsto> v)"
  by (induction m) (auto simp: fun_eq_iff)

lemma Map_get_Map_set: "Map_get (Map_set k v m) k' = (if k' = k then Some v else Map_get m k')"
  by (simp add: Map_get_def map_of_Map_set)

lemma Map_has_Map_set: "Map_has (Map_set k v m) k' = (k' = k \<or> Map_has m k')"
  by (simp add: Map_has_def map_of_Map_set)

lemma set_Map_set_subset: "set (Map_set k v m) \<subseteq> insert (k, v) (set m)"
  by (induction m) auto

lemma keys_Map_set: "fst ` set (Map_set k v m) = insert k (fst ` set m)"
  by (induction m) auto

lemma distinct_Map_set: "distinct (map fst m) \<Longrightarrow> distinct (map fst (Map_set k v m))"
  by (induction m) (auto simp: keys_Map_set)

lemma length_Map_set:
  "length (Map_set k v m) = (if Map_has m k then length m else Suc (length m))"
  by (induction m) (auto simp: Map_has_def)

lemma map_of_filter_keys:
  "map_of (filter (\<lambda>e. P (fst e)) m) k = (if P k then map_of m k else None)"
  by (induction m) auto

lemma Map_has_iff_key: "Map_has m k = (k \<in> fst ` set m)"
  by (simp add: Map_has_def map_of_eq_None_iff)

lemma Map_get_Map_delete: "Map_get (Map_delete k m) k' = (if k' = k then None else Map_get m k')"
  unfolding Map_get_def Map_delete_def using map_of_filter_keys [of "\<lambda>x. x \<noteq> k" m k'] by simp

lemma Map_has_Map_delete: "Map_has (Map_delete k m) k' = (k' \<noteq> k \<and> Map_has m k')"
  using Map_get_Map_delete [of k m k'] by (simp add: Map_has_def Map_get_def)

lemma fold_Map_delete: "fold Map_delete ks m = filter (\<lambda>e. fst e \<notin> set ks) m"
proof (induction ks arbitrary: m)
  case Nil
  then show ?case by simp
next
  case (Cons k ks)
  have "filter (\<lambda>e. fst e \<notin> set ks) (Map_delete k m) = filter (\<lambda>e. fst e \<notin> set (k # ks)) m"
    by (auto simp: Map_delete_def intro: filter_cong)
  with Cons show ?case by simp
qed

lemma delete_counting_eq:
  "delete_counting ks m c = (filter (\<lambda>e. fst e \<notin> set ks) m, c + length ks)"
proof (induction ks arbitrary: m c)
  case Nil
  then show ?case by simp
next
  case (Cons k ks)
  have "filter (\<lambda>e. fst e \<notin> set ks) (Map_delete k m) = filter (\<lambda>e. fst e \<notin> set (k # ks)) m"
    by (auto simp: Map_delete_def intro: filter_cong)
  with Cons show ?case by simp
qed

lemma filter_collected_keys:
  "filter (\<lambda>e. fst e \<notin> set (map fst (filter (\<lambda>e. \<not> P (fst e)) m))) m = filter (\<lambda>e. P (fst e)) m"
  by (rule filter_cong) (auto simp: image_iff)

lemma map_of_filter_by_key:
  "map_of (filter (\<lambda>(k, v). P k) m) k' = (if P k' then map_of m k' else None)"
  by (induction m) auto

lemma length_filter_split:
  "length (filter (\<lambda>(k, v). \<not> P k) m) + length (filter (\<lambda>(k, v). P k) m) = length m"
  by (induction m) auto

section \<open>NumberingManager: verified properties\<close>

subsection \<open>Standard indentation and normalisation\<close>

lemma normalizeLevels_in_range:
  "list_all (\<lambda>l. 0 \<le> lvl_level l \<and> lvl_level l \<le> 8) ls \<Longrightarrow>
   normalizeLevels ls =
     (map (\<lambda>l. l\<lparr>lvl_leftIndent := Finite (720 * (of_int (lvl_level l) + 1)),
                  lvl_hangingIndent := Finite 360\<rparr>) ls, None)"
  by (induction ls)
     (auto simp: getStandardIndentation_def setLeftIndent_def setHangingIndent_def level_number_def)

text \<open>
  What holds of the standard indentation.  For every finite level \<open>q\<close> from 0 to 8
  \<open>getStandardIndentation\<close> returns left indent \<open>720 * (q + 1)\<close> and hanging indent 360, and
  it fails for every number that compares below 0 or above 8, the infinities
  included.  \<open>normalizeListIndentation numId\<close>, on a registered instance whose abstract
  numbering is registered and whose levels have indices from 0 to 8, succeeds with \<open>true\<close>
  and leaves every level of that abstract numbering with exactly these indents, whatever
  the indents were before; nothing else in the manager changes.
\<close>

lemma standard_indentation_restored:
  "(0 \<le> q \<and> q \<le> 8 \<longrightarrow>
      getStandardIndentation (Finite q) =
        Inr \<lparr>leftIndent = Finite (720 * (q + 1)), hangingIndent = Finite 360\<rparr>) \<and>
   (number_less L 0 \<or> number_greater L 8 \<longrightarrow> getStandardIndentation L = Inl (InvalidLevel L)) \<and>
   (getInstance m numId = Some instance \<and>
    getAbstractNumbering m (inst_abstractNumId instance) = Some a \<and>
    list_all (\<lambda>l. 0 \<le> lvl_level l \<and> lvl_level l \<le> 8) (getAllLevels a) \<longrightarrow>
      (let a' = a\<lparr>abs_levels :=
                   map (\<lambda>l. l\<lparr>lvl_leftIndent := Finite (720 * (of_int (lvl_level l) + 1)),
                                lvl_hangingIndent := Finite 360\<rparr>)
                     (abs_levels a)\<rparr>;
           m' = fst (normalizeListIndentation m numId)
       in normalizeListIndentation m numId =
            (m\<lparr>abstractNumberings :=
                 Map_set (inst_abstractNumId instance) a' (abstractNumberings m)\<rparr>, Inr True) \<and>
          getAbstractNumbering m' (inst_abstractNumId instance) = Some a' \<and>
          list_all (\<lambda>l. getStandardIndentation (level_number l) =
                          Inr \<lparr>leftIndent = lvl_leftIndent l, hangingIndent = lvl_hangingIndent l\<rparr>)
            (getAllLevels a')))"
proof -
  have std: "0 \<le> q \<and> q \<le> 8 \<longrightarrow>
      getStandardIndentation (Finite q) =
        Inr \<lparr>leftIndent = Finite (720 * (q + 1)), hangingIndent = Finite 360\<rparr>"
    by (simp add: getStandardIndentation_def)
  have bad: "number_less L 0 \<or> number_greater L 8 \<longrightarrow> getStandardIndentation L = Inl (InvalidLevel L)"
    by (auto simp: getStandardIndentation_def)
  have norm: ?thesis if h: "getInstance m numId = Some instance"
      "getAbstractNumbering m (inst_abstractNumId instance) = Some a"
      "list_all (\<lambda>l. 0 \<le> lvl_level l \<and> lvl_level l \<le> 8) (getAllLevels a)"
  proof -
    let ?f = "\<lambda>l. l\<lparr>lvl_leftIndent := Finite (720 * (of_int (lvl_level l) + 1)),
                      lvl_hangingIndent := Finite 360\<rparr>"
    have nl: "normalizeLevels (getAllLevels a) = (map ?f (abs_levels a), None)"
      using normalizeLevels_in_range [OF h(3)] by (simp add: getAllLevels_def)
    have run: "normalizeListIndentation m numId =
        (m\<lparr>abstractNumberings :=
             Map_set (inst_abstractNumId instance) (a\<lparr>abs_levels := map ?f (abs_levels a)\<rparr>)
               (abstractNumberings m)\<rparr>, Inr True)"
      using h(1,2) nl by (simp add: normalizeListIndentation_def)
    have all: "list_all (\<lambda>l. getStandardIndentation (level_number l) =
                  Inr \<lparr>leftIndent = lvl_leftIndent l, hangingIndent = lvl_hangingIndent l\<rparr>)
                (map ?f (abs_levels a))"
      using h(3)
      by (auto simp: list_all_iff getAllLevels_def getStandardIndentation_def level_number_def)
    show ?thesis
      using std bad run all
      by (simp add: Let_def getAbstractNumbering_def Map_get_Map_set getAllLevels_def)
  qed
  show ?thesis
    using std bad norm by (auto simp: Let_def)
qed

text \<open>
  The lemma at a concrete manager: list 1 uses abstract numbering 0, whose level 1 is
  first given the indents 5000 and 7 by \<open>setListIndentation\<close>; \<open>normalizeListIndentation\<close>
  brings both levels back to 720/360 and 1440/360.
\<close>

lemma standard_indentation_restored_example:
  "getStandardIndentation (Finite 3) = Inr \<lparr>leftIndent = Finite 2880, hangingIndent = Finite 360\<rparr> \<and>
   getStandardIndentation (Finite 9) = Inl (InvalidLevel (Finite 9)) \<and>
   getStandardIndentation PosInfinity = Inl (InvalidLevel PosInfinity) \<and>
   map_option (\<lambda>a. map (\<lambda>l. (lvl_level l, lvl_leftIndent l, lvl_hangingIndent l)) (abs_levels a))
     (getAbstractNumbering example_numbering_mutated 0) =
       Some [(0, Finite 100, Finite 0), (1, Finite 5000, Finite 7)] \<and>
   map_option (\<lambda>a. map (\<lambda>l. (lvl_level l, lvl_leftIndent l, lvl_hangingIndent l)) (abs_levels a))
     (getAbstractNumbering (fst (normalizeListIndentation example_numbering_mutated 1)) 0) =
       Some [(0, Finite 720, Finite 360), (1, Finite 1440, Finite 360)] \<and>
   snd (normalizeListIndentation example_numbering_mutated 1) = Inr True"
proof -
  have m: "example_numbering_mutated =
      example_numbering\<lparr>abstractNumberings :=
        [(0, \<lparr>abstractNumId = 0, abs_levels =
                [\<lparr>lvl_level = 0, lvl_format = ''decimal'', lvl_text = ''%1.'',
                   lvl_leftIndent = Finite 100, lvl_hangingIndent = Finite 0\<rparr>,
                 \<lparr>lvl_level = 1, lvl_format = ''lowerLetter'', lvl_text = ''%2.'',
                   lvl_leftIndent = Finite 5000, lvl_hangingIndent = Finite 7\<rparr>]\<rparr>),
         (1, \<lparr>abstractNumId = 1, abs_levels = []\<rparr>)]\<rparr>"
    by (simp add: example_numbering_mutated_def example_numbering_def example_levels_def
        setListIndentation_def getInstance_def getAbstractNumbering_def Map_get_def
        getLevel_def setLeftIndent_def setHangingIndent_def level_number_def)
  let ?a = "\<lparr>abstractNumId = 0, abs_levels =
                [\<lparr>lvl_level = 0, lvl_format = ''decimal'', lvl_text = ''%1.'',
                   lvl_leftIndent = Finite 100, lvl_hangingIndent = Finite 0\<rparr>,
                 \<lparr>lvl_level = 1, lvl_format = ''lowerLetter'', lvl_text = ''%2.'',
                   lvl_leftIndent = Finite 5000, lvl_hangingIndent = Finite 7\<rparr>]\<rparr>"
  have pre: "getInstance example_numbering_mutated 1 = Some \<lparr>inst_numId = 1, inst_abstractNumId = 0\<rparr>"
    "getAbstractNumbering example_numbering_mutated 0 = Some ?a"
    "list_all (\<lambda>l. 0 \<le> lvl_level l \<and> lvl_level l \<le> 8) (getAllLevels ?a)"
    by (simp_all add: m example_numbering_def getInstance_def getAbstractNumbering_def
        Map_get_def getAllLevels_def)
  show ?thesis
    using standard_indentation_restored
            [of 3 "Finite 9" example_numbering_mutated 1 "\<lparr>inst_numId = 1, inst_abstractNumId = 0\<rparr>" ?a]
          standard_indentation_restored
            [of 3 PosInfinity example_numbering_mutated 1 "\<lparr>inst_numId = 1, inst_abstractNumId = 0\<rparr>" ?a]
          pre
    by (simp add: Let_def)
qed

text \<open>
  C7.  The claim: the standard indentation of a level \<open>L\<close> in [0,8] is left indent
  \<open>720 * (L + 1)\<close> and hanging indent 360, and \<open>getStandardIndentation\<close> fails for \<open>L\<close>
  outside [0,8].  The parameter is a JavaScript number, and \<open>NaN\<close>, which is not in [0,8],
  passes the guard \<open>level < 0 || level > 8\<close>, both comparisons being false: the call
  \<open>getStandardIndentation(NaN)\<close> does not throw, it returns left indent \<open>NaN\<close> and hanging
  indent 360.  The numbers next to the range are treated as the claim says: \<open>-1\<close>, 9 and
  the infinities are rejected, 0 and 8 give 720 and 6480.
\<close>

theorem getStandardIndentation_NaN_not_rejected:
  "getStandardIndentation NaN = Inr \<lparr>leftIndent = NaN, hangingIndent = Finite 360\<rparr> \<and>
   getStandardIndentation (Finite (-1)) = Inl (InvalidLevel (Finite (-1))) \<and>
   getStandardIndentation (Finite 9) = Inl (InvalidLevel (Finite 9)) \<and>
   getStandardIndentation PosInfinity = Inl (InvalidLevel PosInfinity) \<and>
   getStandardIndentation NegInfinity = Inl (InvalidLevel NegInfinity) \<and>
   getStandardIndentation (Finite 0) = Inr \<lparr>leftIndent = Finite 720, hangingIndent = Finite 360\<rparr> \<and>
   getStandardIndentation (Finite 8) = Inr \<lparr>leftIndent = Finite 6480, hangingIndent = Finite 360\<rparr>"
  by (simp add: getStandardIndentation_def)

subsection \<open>Cleaning up unused numbering\<close>

lemma collect_then_delete:
  "delete_counting (map fst (filter (\<lambda>(k, v). \<not> P k) m)) m 0 =
     (filter (\<lambda>(k, v). P k) m, length (filter (\<lambda>(k, v). \<not> P k) m))"
proof -
  have "filter (\<lambda>e. fst e \<notin> set (map fst (filter (\<lambda>(k, v). \<not> P k) m))) m =
        filter (\<lambda>(k, v). P k) m"
    by (rule filter_cong) (auto simp: image_iff)
  then show ?thesis by (simp add: delete_counting_eq)
qed

lemma cleanupUnusedNumbering_run:
  "cleanupUnusedNumbering m usedNumIds =
     (m\<lparr>abstractNumberings :=
          filter (\<lambda>(a, abstractNum). a \<in> set (map (\<lambda>(numId, instance). inst_abstractNumId instance)
                    (filter (\<lambda>(numId, instance). numId \<in> usedNumIds) (instances m))))
            (abstractNumberings m),
        instances := filter (\<lambda>(numId, instance). numId \<in> usedNumIds) (instances m)\<rparr>,
      \<lparr>instancesRemoved =
         length (filter (\<lambda>(numId, instance). numId \<notin> usedNumIds) (instances m)),
       abstractsRemoved =
         length (filter (\<lambda>(a, abstractNum). a \<notin> set (map (\<lambda>(numId, instance). inst_abstractNumId instance)
                    (filter (\<lambda>(numId, instance). numId \<in> usedNumIds) (instances m))))
            (abstractNumberings m))\<rparr>)"
proof -
  let ?P = "\<lambda>k. k \<in> usedNumIds"
  let ?survivors = "filter (\<lambda>(numId, instance). ?P numId) (instances m)"
  let ?referenced = "set (map (\<lambda>(numId, instance). inst_abstractNumId instance) ?survivors)"
  let ?Q = "\<lambda>a. a \<in> ?referenced"
  have s1: "delete_counting
              (map fst (filter (\<lambda>(numId, instance). numId \<notin> usedNumIds) (instances m)))
              (instances m) 0 =
            (?survivors, length (filter (\<lambda>(numId, instance). numId \<notin> usedNumIds) (instances m)))"
    using collect_then_delete [of ?P "instances m"] by simp
  have s2: "delete_counting
              (map fst (filter (\<lambda>(a, abstractNum). a \<notin> ?referenced) (abstractNumberings m)))
              (abstractNumberings m) 0 =
            (filter (\<lambda>(a, abstractNum). ?Q a) (abstractNumberings m),
             length (filter (\<lambda>(a, abstractNum). a \<notin> ?referenced) (abstractNumberings m)))"
    using collect_then_delete [of ?Q "abstractNumberings m"] by simp
  show ?thesis
    unfolding cleanupUnusedNumbering_def Let_def s1 prod.case s2 by (rule refl)
qed

subsection \<open>Instances reference existing abstract numberings\<close>

lemma references_exist_iff:
  "references_exist m \<longleftrightarrow>
     (\<forall>e \<in> set (instances m). Map_has (abstractNumberings m) (inst_abstractNumId (snd e)))"
  by (auto simp: references_exist_def list_all_iff hasAbstractNumbering_def)

lemma references_exist_frame:
  assumes "references_exist m"
    and "set (instances m') \<subseteq> set (instances m)"
    and "\<And>k. Map_has (abstractNumberings m) k \<Longrightarrow> Map_has (abstractNumberings m') k"
  shows "references_exist m'"
  using assms unfolding references_exist_iff by blast

lemma ref_addAbstractNumbering:
  "references_exist m \<Longrightarrow> references_exist (addAbstractNumbering m a)"
  by (rule references_exist_frame [where m = m])
     (auto simp: addAbstractNumbering_def Let_def Map_has_Map_set)

lemma removeAbstractNumbering_state:
  "fst (removeAbstractNumbering m a) =
     m\<lparr>instances :=
         filter (\<lambda>e. fst e \<notin> fst ` {e \<in> set (instances m). inst_abstractNumId (snd e) = a})
           (instances m),
       abstractNumberings := Map_delete a (abstractNumberings m)\<rparr>"
proof -
  have "set (map fst (filter (\<lambda>(numId, instance). inst_abstractNumId instance = a) (instances m))) =
        fst ` {e \<in> set (instances m). inst_abstractNumId (snd e) = a}"
    by (auto simp: image_iff)
  then show ?thesis
    by (simp add: removeAbstractNumbering_def Let_def fold_Map_delete)
qed

lemma removeAbstractNumbering_no_reference:
  "e \<in> set (instances (fst (removeAbstractNumbering m a))) \<Longrightarrow> inst_abstractNumId (snd e) \<noteq> a"
  unfolding removeAbstractNumbering_state by (auto simp: image_iff)

lemma ref_removeAbstractNumbering:
  assumes "references_exist m"
  shows "references_exist (fst (removeAbstractNumbering m a))"
  unfolding references_exist_iff
proof
  fix e
  assume e: "e \<in> set (instances (fst (removeAbstractNumbering m a)))"
  then have ne: "inst_abstractNumId (snd e) \<noteq> a"
    by (rule removeAbstractNumbering_no_reference)
  from e have "e \<in> set (instances m)"
    unfolding removeAbstractNumbering_state by simp
  with assms have "Map_has (abstractNumberings m) (inst_abstractNumId (snd e))"
    unfolding references_exist_iff by blast
  with ne show "Map_has (abstractNumberings (fst (removeAbstractNumbering m a)))
                  (inst_abstractNumId (snd e))"
    unfolding removeAbstractNumbering_state by (simp add: Map_has_Map_delete)
qed

lemma ref_addInstance:
  assumes "references_exist m" and "addInstance m i = Inr m'"
  shows "references_exist m'"
proof -
  from assms(2) have has: "Map_has (abstractNumberings m) (inst_abstractNumId i)"
    and inst: "instances m' = Map_set (inst_numId i) i (instances m)"
    and abs: "abstractNumberings m' = abstractNumberings m"
    by (auto simp: addInstance_def Let_def hasAbstractNumbering_def split: if_splits)
  show ?thesis
    unfolding references_exist_iff
  proof
    fix e
    assume "e \<in> set (instances m')"
    then have "e = (inst_numId i, i) \<or> e \<in> set (instances m)"
      using set_Map_set_subset [of "inst_numId i" i "instances m"] inst by auto
    then show "Map_has (abstractNumberings m') (inst_abstractNumId (snd e))"
      using has assms(1) abs unfolding references_exist_iff by auto
  qed
qed

lemma ref_counters:
  "references_exist (m\<lparr>nextNumId := n\<rparr>) = references_exist m"
  "references_exist (m\<lparr>nextAbstractNumId := n\<rparr>) = references_exist m"
  by (simp_all add: references_exist_def hasAbstractNumbering_def)

lemma ref_removeInstance:
  "references_exist m \<Longrightarrow> references_exist (fst (removeInstance m n))"
  by (rule references_exist_frame [where m = m])
     (auto simp: removeInstance_def Map_delete_def)

lemma ref_createList:
  assumes "references_exist m"
  shows "references_exist (fst (createList mk m))"
proof -
  let ?m3 = "(addAbstractNumbering (m\<lparr>nextAbstractNumId := nextAbstractNumId m + 1\<rparr>)
               (mk (nextAbstractNumId m)))
             \<lparr>nextNumId := nextNumId (addAbstractNumbering
                 (m\<lparr>nextAbstractNumId := nextAbstractNumId m + 1\<rparr>) (mk (nextAbstractNumId m))) + 1\<rparr>"
  have m3: "references_exist ?m3"
    using assms by (simp add: ref_counters ref_addAbstractNumbering)
  show ?thesis
    using m3 ref_addInstance [OF m3]
    by (auto simp: createList_def Let_def split: sum.splits)
qed

lemma ref_createInstance:
  assumes "references_exist m"
  shows "references_exist (fst (createInstance m a))"
proof -
  have m1: "references_exist (m\<lparr>nextNumId := nextNumId m + 1\<rparr>)"
    using assms by (simp add: ref_counters)
  show ?thesis
    using assms m1 ref_addInstance [OF m1]
    by (auto simp: createInstance_def Let_def split: sum.splits)
qed

lemma ref_store_abstract:
  "references_exist m \<Longrightarrow>
   references_exist (m\<lparr>abstractNumberings := Map_set k v (abstractNumberings m)\<rparr>)"
  by (rule references_exist_frame [where m = m]) (auto simp: Map_has_Map_set)

lemma ref_setListIndentation:
  "references_exist m \<Longrightarrow> references_exist (fst (setListIndentation m n l li hi))"
  by (auto simp: setListIndentation_def Let_def ref_store_abstract
           split: option.splits sum.splits)

lemma ref_normalizeListIndentation:
  "references_exist m \<Longrightarrow> references_exist (fst (normalizeListIndentation m n))"
  by (auto simp: normalizeListIndentation_def ref_store_abstract split: option.splits prod.splits)

lemma ref_normalizeAll_loop:
  "references_exist m \<Longrightarrow> references_exist (fst (normalizeAll_loop ns m c))"
proof (induction ns arbitrary: m c)
  case Nil
  then show ?case by simp
next
  case (Cons n ns)
  from Cons.prems have "references_exist (fst (normalizeListIndentation m n))"
    by (rule ref_normalizeListIndentation)
  then show ?case
    using Cons.IH by (auto split: prod.splits sum.splits)
qed

lemma ref_clear: "references_exist (NumberingManager_clear m)"
  by (simp add: references_exist_def NumberingManager_clear_def)

lemma ref_cleanupUnusedNumbering:
  assumes "references_exist m"
  shows "references_exist (fst (cleanupUnusedNumbering m used))"
proof -
  let ?survivors = "filter (\<lambda>(numId, instance). numId \<in> used) (instances m)"
  let ?referenced = "set (map (\<lambda>(numId, instance). inst_abstractNumId instance) ?survivors)"
  have st: "fst (cleanupUnusedNumbering m used) =
      m\<lparr>abstractNumberings := filter (\<lambda>(a, abstractNum). a \<in> ?referenced) (abstractNumberings m),
        instances := ?survivors\<rparr>"
    by (simp add: cleanupUnusedNumbering_run)
  show ?thesis
    unfolding references_exist_iff st
  proof
    fix e
    assume "e \<in> set (instances (m\<lparr>abstractNumberings :=
        filter (\<lambda>(a, abstractNum). a \<in> ?referenced) (abstractNumberings m), instances := ?survivors\<rparr>))"
    then have e: "e \<in> set ?survivors" by simp
    then have r: "inst_abstractNumId (snd e) \<in> ?referenced"
      by (force simp: image_iff)
    from e assms have "Map_has (abstractNumberings m) (inst_abstractNumId (snd e))"
      unfolding references_exist_iff by auto
    with r show "Map_has (abstractNumberings (m\<lparr>abstractNumberings :=
        filter (\<lambda>(a, abstractNum). a \<in> ?referenced) (abstractNumberings m), instances := ?survivors\<rparr>))
        (inst_abstractNumId (snd e))"
      by (simp add: Map_has_def map_of_filter_by_key)
  qed
qed

lemma ref_initializeDefaultNumberings:
  "references_exist m \<Longrightarrow> references_exist (initializeDefaultNumberings mkB mkN m)"
  by (simp add: initializeDefaultNumberings_def Let_def ref_counters ref_addAbstractNumbering)

lemma references_exist_state_after:
  "references_exist m \<Longrightarrow> references_exist (state_after op m)"
proof (cases op)
  case (AddInstance i)
  assume "references_exist m"
  then show ?thesis
    using AddInstance ref_addInstance [of m i] by (auto split: sum.splits)
qed (simp_all add: ref_addAbstractNumbering ref_removeAbstractNumbering ref_removeInstance
      ref_createList ref_createInstance ref_setListIndentation ref_normalizeListIndentation
      ref_normalizeAll_loop ref_clear ref_cleanupUnusedNumbering ref_initializeDefaultNumberings
      normalizeAllListIndentation_def)

lemma references_exist_fold:
  "references_exist m \<Longrightarrow> references_exist (fold state_after ops m)"
  by (induction ops arbitrary: m) (simp_all add: references_exist_state_after)

lemma removeAbstractNumbering_exactly:
  assumes "distinct (Map_keys (instances m))"
  shows "instances (fst (removeAbstractNumbering m a)) =
           filter (\<lambda>(numId, i). inst_abstractNumId i \<noteq> a) (instances m)"
proof -
  have "filter (\<lambda>e. fst e \<notin> fst ` {e \<in> set (instances m). inst_abstractNumId (snd e) = a})
          (instances m) =
        filter (\<lambda>(numId, i). inst_abstractNumId i \<noteq> a) (instances m)"
  proof (rule filter_cong [OF refl])
    fix e
    assume e: "e \<in> set (instances m)"
    have "fst e \<in> fst ` {e \<in> set (instances m). inst_abstractNumId (snd e) = a} \<longleftrightarrow>
          inst_abstractNumId (snd e) = a"
    proof
      assume "fst e \<in> fst ` {e \<in> set (instances m). inst_abstractNumId (snd e) = a}"
      then obtain e' where e': "e' \<in> set (instances m)" "inst_abstractNumId (snd e') = a"
        "fst e' = fst e" by auto
      from assms e e'(1,3) have "e' = e"
        unfolding Map_keys_def by (metis eq_key_imp_eq_value prod.collapse)
      with e'(2) show "inst_abstractNumId (snd e) = a" by simp
    next
      assume "inst_abstractNumId (snd e) = a"
      with e show "fst e \<in> fst ` {e \<in> set (instances m). inst_abstractNumId (snd e) = a}"
        by blast
    qed
    then show "(fst e \<notin> fst ` {e \<in> set (instances m). inst_abstractNumId (snd e) = a}) =
               (case e of (numId, i) \<Rightarrow> inst_abstractNumId i \<noteq> a)"
      by (simp add: case_prod_beta)
  qed
  then show ?thesis
    by (simp add: removeAbstractNumbering_state)
qed

text \<open>
  C4.  The empty manager satisfies the invariant that every registered instance references
  a registered abstract numbering, every operation of the manager preserves it (so every
  state reached from the empty manager satisfies it), \<open>addInstance\<close> fails when the
  referenced abstract numbering is absent and registers the instance otherwise, and
  \<open>removeAbstractNumbering a\<close> leaves no instance whose \<open>abstractNumId\<close> is \<open>a\<close> (it removes
  exactly those instances) and no abstract numbering \<open>a\<close>.
\<close>

theorem instances_reference_existing_definitions:
  "references_exist NumberingManager_empty \<and>
   (references_exist m \<longrightarrow> references_exist (state_after op m)) \<and>
   references_exist (fold state_after ops NumberingManager_empty) \<and>
   (\<not> hasAbstractNumbering m (inst_abstractNumId instance) \<longrightarrow>
      addInstance m instance = Inl (AbstractNumberingMissing (inst_abstractNumId instance))) \<and>
   (hasAbstractNumbering m (inst_abstractNumId instance) \<longrightarrow>
      (\<exists>m'. addInstance m instance = Inr m' \<and>
            getInstance m' (inst_numId instance) = Some instance)) \<and>
   list_all (\<lambda>(numId, i). inst_abstractNumId i \<noteq> a)
     (instances (fst (removeAbstractNumbering m a))) \<and>
   \<not> hasAbstractNumbering (fst (removeAbstractNumbering m a)) a \<and>
   (distinct (Map_keys (instances m)) \<longrightarrow>
      instances (fst (removeAbstractNumbering m a)) =
        filter (\<lambda>(numId, i). inst_abstractNumId i \<noteq> a) (instances m))"
proof -
  have e: "references_exist NumberingManager_empty"
    by (simp add: references_exist_def NumberingManager_empty_def)
  have add_fail: "\<not> hasAbstractNumbering m (inst_abstractNumId instance) \<longrightarrow>
      addInstance m instance = Inl (AbstractNumberingMissing (inst_abstractNumId instance))"
    by (simp add: addInstance_def Let_def)
  have add_ok: "hasAbstractNumbering m (inst_abstractNumId instance) \<longrightarrow>
      (\<exists>m'. addInstance m instance = Inr m' \<and>
            getInstance m' (inst_numId instance) = Some instance)"
    by (simp add: addInstance_def Let_def getInstance_def Map_get_Map_set)
  have none: "list_all (\<lambda>(numId, i). inst_abstractNumId i \<noteq> a)
     (instances (fst (removeAbstractNumbering m a)))"
    unfolding list_all_iff
  proof
    fix e
    assume "e \<in> set (instances (fst (removeAbstractNumbering m a)))"
    then have "inst_abstractNumId (snd e) \<noteq> a"
      by (rule removeAbstractNumbering_no_reference)
    then show "case e of (numId, i) \<Rightarrow> inst_abstractNumId i \<noteq> a"
      by (simp add: case_prod_beta)
  qed
  have gone: "\<not> hasAbstractNumbering (fst (removeAbstractNumbering m a)) a"
    by (simp add: removeAbstractNumbering_state hasAbstractNumbering_def Map_has_Map_delete)
  show ?thesis
    using e references_exist_state_after [of m op] references_exist_fold [OF e, of ops]
      add_fail add_ok none gone removeAbstractNumbering_exactly [of m a]
    by blast
qed

theorem instances_reference_existing_definitions_witness:
  "references_exist example_numbering \<and>
   references_exist (state_after (RemoveAbstractNumbering 0) example_numbering) \<and>
   instances (fst (removeAbstractNumbering example_numbering 0)) =
     [(3, \<lparr>inst_numId = 3, inst_abstractNumId = 1\<rparr>)] \<and>
   addInstance example_numbering \<lparr>inst_numId = 9, inst_abstractNumId = 7\<rparr> =
     Inl (AbstractNumberingMissing 7) \<and>
   (\<exists>m'. addInstance example_numbering \<lparr>inst_numId = 9, inst_abstractNumId = 1\<rparr> = Inr m' \<and>
         getInstance m' 9 = Some \<lparr>inst_numId = 9, inst_abstractNumId = 1\<rparr>)"
proof -
  have r: "references_exist example_numbering"
    by (simp add: references_exist_def example_numbering_def hasAbstractNumbering_def Map_has_def)
  have d: "distinct (Map_keys (instances example_numbering))"
    by (simp add: example_numbering_def Map_keys_def)
  have n7: "\<not> hasAbstractNumbering example_numbering 7"
    by (simp add: example_numbering_def hasAbstractNumbering_def Map_has_def)
  have h1: "hasAbstractNumbering example_numbering 1"
    by (simp add: example_numbering_def hasAbstractNumbering_def Map_has_def)
  have f: "filter (\<lambda>(numId, i). inst_abstractNumId i \<noteq> 0) (instances example_numbering) =
      [(3, \<lparr>inst_numId = 3, inst_abstractNumId = 1\<rparr>)]"
    by (simp add: example_numbering_def)
  show ?thesis
    using r d n7 h1 f
      instances_reference_existing_definitions
        [of example_numbering "RemoveAbstractNumbering 0" "[]"
            "\<lparr>inst_numId = 9, inst_abstractNumId = 7\<rparr>" 0]
      instances_reference_existing_definitions
        [of example_numbering "RemoveAbstractNumbering 0" "[]"
            "\<lparr>inst_numId = 9, inst_abstractNumId = 1\<rparr>" 0]
    by simp
qed

subsection \<open>Objects are stored under their own ids\<close>

lemma Map_set_stored:
  assumes "distinct (map fst m)" and "list_all (\<lambda>(k, v). f v = k) m" and "f v = k"
  shows "distinct (map fst (Map_set k v m)) \<and> list_all (\<lambda>(k, v). f v = k) (Map_set k v m)"
proof -
  have "set (Map_set k v m) \<subseteq> insert (k, v) (set m)"
    by (rule set_Map_set_subset)
  with assms(2,3) have "list_all (\<lambda>(k, v). f v = k) (Map_set k v m)"
    by (auto simp: list_all_iff)
  with assms(1) show ?thesis
    by (simp add: distinct_Map_set)
qed

lemma filter_stored:
  assumes "distinct (map fst m)" and "list_all (\<lambda>(k, v). f v = k) m"
  shows "distinct (map fst (filter P m)) \<and> list_all (\<lambda>(k, v). f v = k) (filter P m)"
  using assms by (auto simp: list_all_iff distinct_map_filter)

lemma stored_frame:
  assumes "stored_under_own_id m"
    and "distinct (map fst (abstractNumberings m')) \<and>
         list_all (\<lambda>(k, a). abstractNumId a = k) (abstractNumberings m')"
    and "distinct (map fst (instances m')) \<and>
         list_all (\<lambda>(k, i). inst_numId i = k) (instances m')"
  shows "stored_under_own_id m'"
  using assms by (simp add: stored_under_own_id_def Map_keys_def)

lemma stored_parts:
  assumes "stored_under_own_id m"
  shows "distinct (map fst (abstractNumberings m))"
    and "list_all (\<lambda>(k, a). abstractNumId a = k) (abstractNumberings m)"
    and "distinct (map fst (instances m))"
    and "list_all (\<lambda>(k, i). inst_numId i = k) (instances m)"
  using assms by (simp_all add: stored_under_own_id_def Map_keys_def)

lemma stored_counters:
  "stored_under_own_id (m\<lparr>nextNumId := n\<rparr>) = stored_under_own_id m"
  "stored_under_own_id (m\<lparr>nextAbstractNumId := n\<rparr>) = stored_under_own_id m"
  by (simp_all add: stored_under_own_id_def)

lemma stored_addAbstractNumbering:
  assumes "stored_under_own_id m"
  shows "stored_under_own_id (addAbstractNumbering m a)"
  using Map_set_stored [OF stored_parts(1,2) [OF assms], of a "abstractNumId a"] stored_parts(3,4) [OF assms]
  by (intro stored_frame [OF assms]) (simp_all add: addAbstractNumbering_def Let_def)

lemma stored_addInstance:
  assumes "stored_under_own_id m" and "addInstance m i = Inr m'"
  shows "stored_under_own_id m'"
proof -
  from assms(2) have inst: "instances m' = Map_set (inst_numId i) i (instances m)"
    and abs: "abstractNumberings m' = abstractNumberings m"
    by (auto simp: addInstance_def Let_def split: if_splits)
  show ?thesis
    using Map_set_stored [OF stored_parts(3,4) [OF assms(1)], of i "inst_numId i"]
      stored_parts(1,2) [OF assms(1)]
    by (intro stored_frame [OF assms(1)]) (simp_all add: inst abs)
qed

lemma stored_store_abstract:
  assumes "stored_under_own_id m" and "Map_get (abstractNumberings m) k = Some a"
  shows "stored_under_own_id
           (m\<lparr>abstractNumberings := Map_set k (a\<lparr>abs_levels := ls\<rparr>) (abstractNumberings m)\<rparr>)"
proof -
  from assms(2) have "(k, a) \<in> set (abstractNumberings m)"
    by (simp add: Map_get_def map_of_SomeD)
  with stored_parts(2) [OF assms(1)] have "abstractNumId a = k"
    by (auto simp: list_all_iff)
  then have "abstractNumId (a\<lparr>abs_levels := ls\<rparr>) = k" by simp
  from Map_set_stored [OF stored_parts(1,2) [OF assms(1)] this] stored_parts(3,4) [OF assms(1)]
  show ?thesis
    by (intro stored_frame [OF assms(1)]) simp_all
qed

lemma stored_removeAbstractNumbering:
  assumes "stored_under_own_id m"
  shows "stored_under_own_id (fst (removeAbstractNumbering m a))"
  using filter_stored [OF stored_parts(1,2) [OF assms]] filter_stored [OF stored_parts(3,4) [OF assms]]
  by (intro stored_frame [OF assms]) (simp_all add: removeAbstractNumbering_state Map_delete_def)

lemma stored_removeInstance:
  assumes "stored_under_own_id m"
  shows "stored_under_own_id (fst (removeInstance m n))"
  using stored_parts(1,2) [OF assms] filter_stored [OF stored_parts(3,4) [OF assms]]
  by (intro stored_frame [OF assms]) (simp_all add: removeInstance_def Map_delete_def)

lemma stored_createList:
  assumes "stored_under_own_id m"
  shows "stored_under_own_id (fst (createList mk m))"
proof -
  let ?m3 = "(addAbstractNumbering (m\<lparr>nextAbstractNumId := nextAbstractNumId m + 1\<rparr>)
               (mk (nextAbstractNumId m)))
             \<lparr>nextNumId := nextNumId (addAbstractNumbering
                 (m\<lparr>nextAbstractNumId := nextAbstractNumId m + 1\<rparr>) (mk (nextAbstractNumId m))) + 1\<rparr>"
  have m3: "stored_under_own_id ?m3"
    using assms by (simp add: stored_counters stored_addAbstractNumbering)
  show ?thesis
    using m3 stored_addInstance [OF m3]
    by (auto simp: createList_def Let_def split: sum.splits)
qed

lemma stored_createInstance:
  assumes "stored_under_own_id m"
  shows "stored_under_own_id (fst (createInstance m a))"
proof -
  have m1: "stored_under_own_id (m\<lparr>nextNumId := nextNumId m + 1\<rparr>)"
    using assms by (simp add: stored_counters)
  show ?thesis
    using assms m1 stored_addInstance [OF m1]
    by (auto simp: createInstance_def Let_def split: sum.splits)
qed

lemma stored_setListIndentation:
  "stored_under_own_id m \<Longrightarrow> stored_under_own_id (fst (setListIndentation m n l li hi))"
  by (auto simp: setListIndentation_def Let_def getAbstractNumbering_def stored_store_abstract
           split: option.splits sum.splits)

lemma stored_normalizeListIndentation:
  "stored_under_own_id m \<Longrightarrow> stored_under_own_id (fst (normalizeListIndentation m n))"
  by (auto simp: normalizeListIndentation_def getAbstractNumbering_def stored_store_abstract
           split: option.splits prod.splits)

lemma stored_normalizeAll_loop:
  "stored_under_own_id m \<Longrightarrow> stored_under_own_id (fst (normalizeAll_loop ns m c))"
proof (induction ns arbitrary: m c)
  case Nil
  then show ?case by simp
next
  case (Cons n ns)
  from Cons.prems have "stored_under_own_id (fst (normalizeListIndentation m n))"
    by (rule stored_normalizeListIndentation)
  then show ?case
    using Cons.IH by (auto split: prod.splits sum.splits)
qed

lemma stored_cleanupUnusedNumbering:
  assumes "stored_under_own_id m"
  shows "stored_under_own_id (fst (cleanupUnusedNumbering m used))"
  using filter_stored [OF stored_parts(1,2) [OF assms]] filter_stored [OF stored_parts(3,4) [OF assms]]
  by (intro stored_frame [OF assms]) (simp_all add: cleanupUnusedNumbering_run)

lemma stored_state_after:
  "stored_under_own_id m \<Longrightarrow> stored_under_own_id (state_after op m)"
proof (cases op)
  case (AddInstance i)
  assume "stored_under_own_id m"
  then show ?thesis
    using AddInstance stored_addInstance [of m i] by (auto split: sum.splits)
next
  case Clear
  then show ?thesis
    by (simp add: NumberingManager_clear_def stored_under_own_id_def Map_keys_def)
qed (simp_all add: stored_addAbstractNumbering stored_removeAbstractNumbering stored_removeInstance
      stored_createList stored_createInstance stored_setListIndentation
      stored_normalizeListIndentation stored_normalizeAll_loop stored_cleanupUnusedNumbering
      normalizeAllListIndentation_def initializeDefaultNumberings_def Let_def stored_counters)

lemma stored_reachable:
  "stored_under_own_id (fold state_after ops NumberingManager_empty)"
proof -
  have "stored_under_own_id m \<Longrightarrow> stored_under_own_id (fold state_after ops m)" for m
    by (induction ops arbitrary: m) (simp_all add: stored_state_after)
  then show ?thesis
    by (simp add: stored_under_own_id_def NumberingManager_empty_def Map_keys_def)
qed

lemma filter_by_own_id:
  assumes "list_all (\<lambda>(k, i). inst_numId i = k) m"
  shows "filter (\<lambda>(numId, i). numId \<in> used) m = filter (\<lambda>(numId, i). inst_numId i \<in> used) m"
  using assms by (intro filter_cong) (auto simp: list_all_iff)

subsection \<open>What the cleanup removes\<close>

text \<open>
  C3.  \<open>cleanupUnusedNumbering usedNumIds\<close> keeps exactly the instances registered under a
  \<open>numId\<close> in \<open>usedNumIds\<close> (in a manager built by its own operations that is the
  \<open>numId\<close> the instance carries), then keeps exactly the abstract numberings referenced by
  a surviving instance, changes nothing else (order, values, counters), and returns the
  number of instances and of abstract numberings it removed.
\<close>

theorem cleanupUnusedNumbering_exact:
  "(let survivors = filter (\<lambda>(numId, instance). numId \<in> usedNumIds) (instances m);
        referenced = set (map (\<lambda>(numId, instance). inst_abstractNumId instance) survivors);
        kept = filter (\<lambda>(a, abstractNum). a \<in> referenced) (abstractNumberings m);
        m' = fst (cleanupUnusedNumbering m usedNumIds);
        r = snd (cleanupUnusedNumbering m usedNumIds)
    in m' = m\<lparr>abstractNumberings := kept, instances := survivors\<rparr> \<and>
       instancesRemoved r =
         length (filter (\<lambda>(numId, instance). numId \<notin> usedNumIds) (instances m)) \<and>
       abstractsRemoved r =
         length (filter (\<lambda>(a, abstractNum). a \<notin> referenced) (abstractNumberings m)) \<and>
       instancesRemoved r + getInstanceCount m' = getInstanceCount m \<and>
       abstractsRemoved r + getAbstractNumberingCount m' = getAbstractNumberingCount m \<and>
       getInstance m' k = (if k \<in> usedNumIds then getInstance m k else None) \<and>
       getAbstractNumbering m' b = (if b \<in> referenced then getAbstractNumbering m b else None) \<and>
       (stored_under_own_id m \<longrightarrow>
          stored_under_own_id m' \<and>
          instances m' = filter (\<lambda>(numId, instance). inst_numId instance \<in> usedNumIds) (instances m)))"
proof -
  let ?P = "\<lambda>k. k \<in> usedNumIds"
  let ?survivors = "filter (\<lambda>(numId, instance). numId \<in> usedNumIds) (instances m)"
  let ?referenced = "set (map (\<lambda>(numId, instance). inst_abstractNumId instance) ?survivors)"
  let ?Q = "\<lambda>a. a \<in> ?referenced"
  let ?kept = "filter (\<lambda>(a, abstractNum). a \<in> ?referenced) (abstractNumberings m)"
  let ?m' = "fst (cleanupUnusedNumbering m usedNumIds)"
  let ?r = "snd (cleanupUnusedNumbering m usedNumIds)"
  have run: "cleanupUnusedNumbering m usedNumIds =
      (m\<lparr>abstractNumberings := ?kept, instances := ?survivors\<rparr>,
       \<lparr>instancesRemoved = length (filter (\<lambda>(numId, instance). numId \<notin> usedNumIds) (instances m)),
        abstractsRemoved = length (filter (\<lambda>(a, abstractNum). a \<notin> ?referenced) (abstractNumberings m))\<rparr>)"
    by (rule cleanupUnusedNumbering_run)
  have m': "?m' = m\<lparr>abstractNumberings := ?kept, instances := ?survivors\<rparr>"
    unfolding run by (rule fst_conv)
  have r1: "instancesRemoved ?r =
      length (filter (\<lambda>(numId, instance). numId \<notin> usedNumIds) (instances m))"
    unfolding run by simp
  have r2: "abstractsRemoved ?r =
      length (filter (\<lambda>(a, abstractNum). a \<notin> ?referenced) (abstractNumberings m))"
    unfolding run by simp
  have sel: "abstractNumberings (m\<lparr>abstractNumberings := ?kept, instances := ?survivors\<rparr>) = ?kept"
    by simp
  have c1: "instancesRemoved ?r + getInstanceCount ?m' = getInstanceCount m"
    unfolding r1 m' using length_filter_split [of ?P "instances m"]
    by (simp add: getInstanceCount_def Map_size_def)
  have c2: "abstractsRemoved ?r + getAbstractNumberingCount ?m' = getAbstractNumberingCount m"
    unfolding r2 m' getAbstractNumberingCount_def Map_size_def sel
    by (rule length_filter_split [of ?Q "abstractNumberings m"])
  have g1: "getInstance ?m' k = (if k \<in> usedNumIds then getInstance m k else None)"
    unfolding m' using map_of_filter_by_key [of ?P "instances m" k]
    by (simp add: getInstance_def Map_get_def)
  have g2: "getAbstractNumbering ?m' b =
      (if b \<in> ?referenced then getAbstractNumbering m b else None)"
    unfolding m' getAbstractNumbering_def Map_get_def sel
    by (rule map_of_filter_by_key [of ?Q "abstractNumberings m" b])
  have own: "stored_under_own_id m \<longrightarrow>
      stored_under_own_id ?m' \<and>
      instances ?m' = filter (\<lambda>(numId, instance). inst_numId instance \<in> usedNumIds) (instances m)"
  proof
    assume s: "stored_under_own_id m"
    have "instances ?m' = ?survivors"
      unfolding m' by simp
    also have "\<dots> = filter (\<lambda>(numId, instance). inst_numId instance \<in> usedNumIds) (instances m)"
      using stored_parts(4) [OF s] by (rule filter_by_own_id)
    finally show "stored_under_own_id ?m' \<and>
      instances ?m' = filter (\<lambda>(numId, instance). inst_numId instance \<in> usedNumIds) (instances m)"
      using stored_cleanupUnusedNumbering [OF s, of usedNumIds] by simp
  qed
  show ?thesis
    unfolding Let_def by (intro conjI m' r1 r2 c1 c2 g1 g2 own)
qed

theorem cleanupUnusedNumbering_exact_witness:
  "cleanupUnusedNumbering example_numbering {1} =
     (example_numbering
        \<lparr>abstractNumberings := [(0, \<lparr>abstractNumId = 0, abs_levels = example_levels\<rparr>)],
         instances := [(1, \<lparr>inst_numId = 1, inst_abstractNumId = 0\<rparr>)]\<rparr>,
      \<lparr>instancesRemoved = 2, abstractsRemoved = 1\<rparr>)"
proof -
  have "snd (cleanupUnusedNumbering example_numbering {1}) =
          \<lparr>instancesRemoved = instancesRemoved (snd (cleanupUnusedNumbering example_numbering {1})),
           abstractsRemoved = abstractsRemoved (snd (cleanupUnusedNumbering example_numbering {1}))\<rparr>"
    by simp
  moreover have "stored_under_own_id example_numbering"
    by (simp add: stored_under_own_id_def example_numbering_def Map_keys_def)
  ultimately show ?thesis
    using cleanupUnusedNumbering_exact [of "{1}" example_numbering 1 0]
    by (simp add: Let_def example_numbering_def prod_eq_iff)
qed


section \<open>ImageManager: verified properties\<close>

lemma nat_toString_digit: "n < 10 \<Longrightarrow> nat_toString n = [digit_char n]"
  by (simp add: nat_toString_def digits_onto.simps)

subsection \<open>Registering under a known relationship id\<close>

lemma registerImage_known_key:
  "Map_get (imagesByRelId m) k = Some e \<Longrightarrow>
   registerImage h m img k =
     ((h, m\<lparr>images := Map_set img e (images m)\<rparr>), Inr (entry_filename e))"
  by (simp add: registerImage_def)

lemma registerImage_keeps_keys:
  assumes "Map_get (imagesByRelId m) k = Some e"
  shows "Map_get (imagesByRelId (snd (fst (registerImage h m img k')))) k = Some e"
proof (cases "Map_get (imagesByRelId m) k'")
  case (Some e')
  then show ?thesis using assms by (simp add: registerImage_known_key)
next
  case None
  with assms have "k \<noteq> k'" by auto
  with None assms show ?thesis
    by (simp add: registerImage_def Let_def Map_get_Map_set split: option.splits)
qed

lemma images_after_keeps_keys:
  assumes "Map_get (imagesByRelId m) k = Some e" and "op \<noteq> ClearImages"
  shows "Map_get (imagesByRelId (snd (images_after op (h, m)))) k = Some e"
proof (cases op)
  case (RegisterImage img k')
  with registerImage_keeps_keys [OF assms(1), of h img k'] show ?thesis by simp
next
  case (LoadAllImageData load completion c cb)
  with assms(1) show ?thesis by (simp split: sum.splits)
next
  case (ReleaseAllImageData release)
  with assms(1) show ?thesis by simp
next
  case InitializeFromLoadedImages
  with assms(1) show ?thesis by (simp add: initializeFromLoadedImages_def)
next
  case ClearImages
  with assms(2) show ?thesis by simp
qed

lemma fold_images_after_keeps_keys:
  "Map_get (imagesByRelId m) k = Some e \<Longrightarrow> ClearImages \<notin> set ops \<Longrightarrow>
   Map_get (imagesByRelId (snd (fold images_after ops (h, m)))) k = Some e"
proof (induction ops arbitrary: h m)
  case Nil
  then show ?case by simp
next
  case (Cons op ops)
  obtain h' m' where step: "images_after op (h, m) = (h', m')"
    by (metis prod.exhaust)
  from Cons.prems have "Map_get (imagesByRelId (snd (images_after op (h, m)))) k = Some e"
    by (intro images_after_keeps_keys) auto
  with step have "Map_get (imagesByRelId m') k = Some e" by simp
  moreover from Cons.prems have "ClearImages \<notin> set ops" by simp
  ultimately have "Map_get (imagesByRelId (snd (fold images_after ops (h', m')))) k = Some e"
    by (rule Cons.IH)
  with step show ?case by simp
qed

lemma registerImage_creates_entry:
  assumes "Map_get (imagesByRelId m) k = None" and "Map_get (images m) img = None"
    and "registerImage h m img k = ((h1, m1), Inr f)"
  shows "\<exists>e. Map_get (imagesByRelId m1) k = Some e \<and> entry_filename e = f \<and>
             f = ''image'' @ nat_toString (nextImageNumber m) @ ''.'' @ getExtension (h img) \<and>
             nextImageNumber m1 = nextImageNumber m + 1"
  using assms
  by (auto simp: registerImage_def Let_def Map_get_Map_set split: if_splits option.splits)

text \<open>
  C1, as amended.  Let a call \<open>registerImage img k\<close> have created the entry of \<open>k\<close>: \<open>k\<close> was
  not registered, the image object was not tracked, and the call returned the filename
  \<open>f\<close>.  Then after any further operations of the manager other than \<open>clear\<close>
  (\<open>registerImage\<close>, \<open>loadAllImageData\<close>, \<open>releaseAllImageData\<close>,
  \<open>initializeFromLoadedImages\<close>, whether they return or throw), a call of \<open>registerImage\<close>
  with \<open>k\<close> and any image object \<open>img2\<close> returns \<open>f\<close> again; it uses no filename number and
  no docPr id, the relationship ids registered and the filename of each are the same
  after the call as before it, no filename other than \<open>f\<close> is new among the images
  listed, and when \<open>img2\<close> was tracked already the image count is the same.  (What the call does to the image count for an object not yet tracked is not
  part of the statement.)
\<close>

theorem registerImage_same_key_same_filename:
  "Map_get (imagesByRelId m) k = None \<and> Map_get (images m) img = None \<and>
   registerImage h m img k = ((h1, m1), Inr f) \<and>
   ClearImages \<notin> set ops \<and>
   fold images_after ops (h1, m1) = (h2, m2) \<and>
   registerImage h2 m2 img2 k = ((h3, m3), r) \<longrightarrow>
     r = Inr f \<and>
     nextImageNumber m3 = nextImageNumber m2 \<and>
     nextDocPrId m3 = nextDocPrId m2 \<and>
     map (\<lambda>(k', e). (k', entry_filename e)) (imagesByRelId m3) =
       map (\<lambda>(k', e). (k', entry_filename e)) (imagesByRelId m2) \<and>
     map_option entry_filename (Map_get (imagesByRelId m3) k) = Some f \<and>
     set (map entry_filename (getAllImages m3)) \<subseteq>
       insert f (set (map entry_filename (getAllImages m2))) \<and>
     (hasImage m2 img2 \<longrightarrow> getImageCount m3 = getImageCount m2)"
proof (intro impI, elim conjE)
  assume fresh: "Map_get (imagesByRelId m) k = None" "Map_get (images m) img = None"
    and first: "registerImage h m img k = ((h1, m1), Inr f)"
    and no_clear: "ClearImages \<notin> set ops"
    and between: "fold images_after ops (h1, m1) = (h2, m2)"
    and later: "registerImage h2 m2 img2 k = ((h3, m3), r)"
  from registerImage_creates_entry [OF fresh first]
  obtain e where e: "Map_get (imagesByRelId m1) k = Some e" "entry_filename e = f"
    by blast
  from e(1) no_clear
  have "Map_get (imagesByRelId (snd (fold images_after ops (h1, m1)))) k = Some e"
    by (rule fold_images_after_keeps_keys)
  with between have e2: "Map_get (imagesByRelId m2) k = Some e" by simp
  from later registerImage_known_key [OF e2, of h2 img2]
  have res: "m3 = m2\<lparr>images := Map_set img2 e (images m2)\<rparr>" "r = Inr (entry_filename e)"
    by simp_all
  have cnt: "hasImage m2 img2 \<longrightarrow> getImageCount m3 = getImageCount m2"
    by (simp add: res(1) hasImage_def getImageCount_def Map_size_def length_Map_set)
  have names: "set (map entry_filename (getAllImages m3)) \<subseteq>
      insert f (set (map entry_filename (getAllImages m2)))"
    using set_Map_set_subset [of img2 e "images m2"] e(2)
    by (auto simp: res(1) getAllImages_def Map_values_def)
  show "r = Inr f \<and>
     nextImageNumber m3 = nextImageNumber m2 \<and>
     nextDocPrId m3 = nextDocPrId m2 \<and>
     map (\<lambda>(k', e). (k', entry_filename e)) (imagesByRelId m3) =
       map (\<lambda>(k', e). (k', entry_filename e)) (imagesByRelId m2) \<and>
     map_option entry_filename (Map_get (imagesByRelId m3) k) = Some f \<and>
     set (map entry_filename (getAllImages m3)) \<subseteq>
       insert f (set (map entry_filename (getAllImages m2))) \<and>
     (hasImage m2 img2 \<longrightarrow> getImageCount m3 = getImageCount m2)"
    using res e(2) e2 cnt names by simp
qed

lemmas image_eval =
  registerImage_def ImageManager_new_def default_options_def example_heap_def
  example_image_def Map_get_def Map_has_def Map_size_def validateSize_def getImageData_def getTotalSize_def
  Map_values_def getExtension_def Let_def nat_toString_digit digit_char_def getImageCount_def
  setDocPrId_def setRelationshipId_def hasImage_def

text \<open>
  The theorem at a concrete run: \<open>rId1\<close> is registered with image 0 and gets
  \<open>image1.png\<close>; then image 1 is registered under \<open>rId2\<close>, the filename numbers are
  re-initialised, all image data is loaded and released again; after that \<open>rId1\<close> with the
  new image 2 still returns \<open>image1.png\<close>.
\<close>

theorem registerImage_same_key_same_filename_witness:
  "snd (registerImage example_heap (ImageManager_new default_options) 0 ''rId1'') =
     Inr ''image1.png'' \<and>
   ClearImages \<notin> set example_ops \<and>
   snd (registerImage
          (fst (fold images_after example_ops
                  (fst (registerImage example_heap (ImageManager_new default_options) 0 ''rId1''))))
          (snd (fold images_after example_ops
                  (fst (registerImage example_heap (ImageManager_new default_options) 0 ''rId1''))))
          2 ''rId1'') = Inr ''image1.png''"
proof -
  let ?m = "ImageManager_new default_options"
  obtain h1 m1 where first: "registerImage example_heap ?m 0 ''rId1'' = ((h1, m1), Inr ''image1.png'')"
    by (simp add: image_eval)
  obtain h2 m2 where between: "fold images_after example_ops (h1, m1) = (h2, m2)"
    by (metis prod.exhaust)
  obtain h3 m3 r where later: "registerImage h2 m2 2 ''rId1'' = ((h3, m3), r)"
    by (metis prod.exhaust)
  have fresh: "Map_get (imagesByRelId ?m) ''rId1'' = None" "Map_get (images ?m) 0 = None"
    by (simp_all add: image_eval)
  have no_clear: "ClearImages \<notin> set example_ops"
    by (simp add: example_ops_def)
  from registerImage_same_key_same_filename
         [of ?m "''rId1''" 0 example_heap h1 m1 "''image1.png''" example_ops h2 m2 2 h3 m3 r]
       fresh first no_clear between later
  have "r = Inr ''image1.png''" by blast
  then show ?thesis using first between later no_clear by simp
qed

text \<open>
  The claim as stated fails.  In the first run the second call is made with \<open>rId2\<close> and the
  image object of the first call: it returns \<open>image1.png\<close> without registering \<open>rId2\<close>, so
  the third call, with \<open>rId2\<close> and a new object, creates an entry and returns
  \<open>image2.png\<close>.  In the second run \<open>rId2\<close> is registered and gets \<open>image2.png\<close>, the manager
  is cleared, and the next call with \<open>rId2\<close> creates an entry again and returns
  \<open>image1.png\<close>.  In the third run \<open>rId1\<close> is registered by the first call; the second
  call, with \<open>rId1\<close> and a new object, returns \<open>image1.png\<close> and the image count goes from
  1 to 2.
\<close>

theorem registerImage_repeated_key_counterexample:
  "registerAll example_heap (ImageManager_new default_options)
     [(0, ''rId1''), (0, ''rId2''), (1, ''rId2'')] =
     [(Inr ''image1.png'', 1), (Inr ''image1.png'', 1), (Inr ''image2.png'', 2)] \<and>
   registerAll example_heap (ImageManager_new default_options)
     [(0, ''rId1''), (1, ''rId2'')] =
     [(Inr ''image1.png'', 1), (Inr ''image2.png'', 2)] \<and>
   snd (registerImage
          (fst (fold images_after [RegisterImage 0 ''rId1'', RegisterImage 1 ''rId2'', ClearImages]
                  (example_heap, ImageManager_new default_options)))
          (snd (fold images_after [RegisterImage 0 ''rId1'', RegisterImage 1 ''rId2'', ClearImages]
                  (example_heap, ImageManager_new default_options)))
          1 ''rId2'') = Inr ''image1.png'' \<and>
   registerAll example_heap (ImageManager_new default_options)
     [(0, ''rId1''), (1, ''rId1'')] =
     [(Inr ''image1.png'', 1), (Inr ''image1.png'', 2)]"
  by (simp add: image_eval ImageManager_clear_def)

subsection \<open>An image larger than the limit for one image\<close>

text \<open>
  C5, as amended.  When the relationship id is not registered, the image object is not
  tracked yet, and the loaded bytes of the image exceed the limit for one image,
  \<open>registerImage\<close> throws a capacity error with remediation guidance: the count error when
  the count limit is reached, the single-image size error otherwise.  The heap and the
  manager are unchanged: the image is not added and the image count is the same.
\<close>

theorem registerImage_rejects_oversized:
  "Map_get (imagesByRelId m) k = None \<and> Map_get (images m) img = None \<and>
   getImageData (h img) = Inr len \<and> of_nat len > maxSingleImageSizeBytes m \<longrightarrow>
     registerImage h m img k =
       ((h, m),
        Inl (if of_nat (getImageCount m) \<ge> maxImageCount m
             then MaxImageCountExceeded (maxImageCount m)
             else SingleImageSizeExceeded len (maxSingleImageSizeBytes m))) \<and>
     (\<exists>e. snd (registerImage h m img k) = Inl e \<and> remediation e \<noteq> []) \<and>
     getImageCount (snd (fst (registerImage h m img k))) = getImageCount m \<and>
     \<not> hasImage (snd (fst (registerImage h m img k))) img"
  by (auto simp: registerImage_def validateSize_def getImageCount_def hasImage_def Map_has_def
        Map_get_def)

theorem registerImage_rejects_oversized_witness:
  "registerImage example_heap_loaded (ImageManager_new default_options) 0 ''rId1'' =
     ((example_heap_loaded, ImageManager_new default_options),
      Inl (SingleImageSizeExceeded 30000000 20971520))"
proof -
  have "Map_get (imagesByRelId (ImageManager_new default_options)) ''rId1'' = None"
    "Map_get (images (ImageManager_new default_options)) 0 = None"
    "getImageData (example_heap_loaded 0) = Inr 30000000"
    "of_nat (30000000 :: nat) > maxSingleImageSizeBytes (ImageManager_new default_options)"
    "\<not> of_nat (getImageCount (ImageManager_new default_options))
         \<ge> maxImageCount (ImageManager_new default_options)"
    "maxSingleImageSizeBytes (ImageManager_new default_options) = 20971520"
    by (simp_all add: image_eval example_heap_loaded_def)
  then show ?thesis
    using registerImage_rejects_oversized
      [of "ImageManager_new default_options" "''rId1''" 0 example_heap_loaded 30000000]
    by simp
qed

text \<open>
  The claim as stated fails for an image object that the manager tracks already.  Image 0
  is registered under \<open>rId1\<close> before its bytes are loaded (the size checks are skipped);
  its 30 000 000 bytes are loaded afterwards.  A call with the fresh key \<open>rId2\<close> and that
  object does not throw: it returns the filename the object has.
\<close>

theorem registerImage_oversized_tracked_counterexample:
  "registerAll example_heap_unloaded (ImageManager_new default_options) [(0, ''rId1'')] =
     [(Inr ''image1.png'', 1)] \<and>
   getImageData (example_heap_loaded 0) = Inr 30000000 \<and>
   of_nat (30000000 :: nat) > maxSingleImageSizeBytes example_manager_lazy \<and>
   Map_get (imagesByRelId example_manager_lazy) ''rId2'' = None \<and>
   registerImage example_heap_loaded example_manager_lazy 0 ''rId2'' =
     ((example_heap_loaded, example_manager_lazy), Inr ''image1.png'')"
  by (simp add: image_eval example_heap_loaded_def example_manager_lazy_def
      example_heap_unloaded_def)

subsection \<open>Loading all image data\<close>

text \<open>A callback that returns from every call.\<close>

lemma load_one_counts:
  assumes "\<forall>callback calls. onProgress = Some callback \<longrightarrow> callback calls = None"
  shows "loaded (load_one load onProgress n entry st) = loaded st + 1"
    and "progress (load_one load onProgress n entry st) =
           progress st @ (if onProgress \<noteq> None then [(loaded st + 1, n)] else [])"
    and "rejected (load_one load onProgress n entry st) = rejected st"
  using assms
  by (auto simp: load_one_def load_failed_def report_def Let_def split: sum.splits option.splits)

lemma fold_load_one:
  assumes "\<forall>callback calls. onProgress = Some callback \<longrightarrow> callback calls = None"
  shows "loaded (fold (load_one load onProgress n) xs st) = loaded st + length xs \<and>
   progress (fold (load_one load onProgress n) xs st) =
     progress st @
       (if onProgress \<noteq> None
        then map (\<lambda>j. (j, n)) [Suc (loaded st) ..< Suc (loaded st + length xs)] else []) \<and>
   rejected (fold (load_one load onProgress n) xs st) = rejected st"
proof (induction xs arbitrary: st)
  case Nil
  then show ?case by simp
next
  case (Cons x xs)
  let ?s1 = "load_one load onProgress n x st"
  have l1: "loaded ?s1 = Suc (loaded st)"
    and p1: "progress ?s1 = progress st @ (if onProgress \<noteq> None then [(Suc (loaded st), n)] else [])"
    and r1: "rejected ?s1 = rejected st"
    using load_one_counts [OF assms, of load n x st] by simp_all
  have u: "[Suc (loaded st) ..< Suc (loaded st + length (x # xs))] =
           Suc (loaded st) # [Suc (Suc (loaded st)) ..< Suc (Suc (loaded st) + length xs)]"
    by (simp add: upt_conv_Cons del: upt_Suc)
  show ?case
    using Cons.IH [of ?s1] unfolding l1 p1 r1 u by (simp del: upt_Suc)
qed

lemma load_batches_counts:
  "(\<forall>callback calls. onProgress = Some callback \<longrightarrow> callback calls = None) \<Longrightarrow>
   0 < c \<Longrightarrow> (\<And>b. length (completion b) = length b) \<Longrightarrow>
   loaded st = min i (length entries) \<Longrightarrow>
   progress st =
     (if onProgress \<noteq> None
      then map (\<lambda>j. (j, length entries)) [1 ..< min i (length entries) + 1] else []) \<Longrightarrow>
   rejected st = None \<Longrightarrow>
   loaded (load_batches load completion onProgress c entries i st) = length entries \<and>
   progress (load_batches load completion onProgress c entries i st) =
     (if onProgress \<noteq> None then map (\<lambda>j. (j, length entries)) [1 ..< length entries + 1] else []) \<and>
   rejected (load_batches load completion onProgress c entries i st) = None"
proof (induction load completion onProgress c entries i st rule: load_batches.induct)
  case (1 load completion onProgress c entries i st)
  note quiet = "1.prems"(1) and pos = "1.prems"(2) and perm = "1.prems"(3)
    and ld = "1.prems"(4) and pr = "1.prems"(5) and rj = "1.prems"(6)
  show ?case
  proof (cases "i < length entries")
    case False
    with ld pr rj show ?thesis
      by (simp add: load_batches.simps [of _ _ _ _ _ i] min_def)
  next
    case True
    let ?n = "length entries"
    let ?batch = "slice entries i (min (i + c) ?n)"
    let ?st = "fold (load_one load onProgress ?n) (completion ?batch) st"
    have "length ?batch = min (i + c) ?n - i"
      using True by (auto simp: slice_def min_def)
    then have len: "length (completion ?batch) = min (i + c) ?n - i"
      unfolding perm .
    have sum: "i + (min (i + c) ?n - i) = min (i + c) ?n"
      using True by (simp add: min_def)
    note f = fold_load_one [OF quiet, of load ?n "completion ?batch" st]
    have l: "loaded ?st = min (i + c) ?n"
      using f ld True len sum
      by (simp add: min_absorb1 del: upt_Suc)
    have "[1 ..< Suc i + (min (i + c) ?n - i)] =
          [1 ..< Suc i] @ [Suc i ..< Suc i + (min (i + c) ?n - i)]"
      by (rule upt_add_eq_append) simp
    then have "[1 ..< Suc (min (i + c) ?n)] = [1 ..< Suc i] @ [Suc i ..< Suc (min (i + c) ?n)]"
      using sum by (simp del: upt_Suc)
    then have p: "progress ?st =
        (if onProgress \<noteq> None then map (\<lambda>j. (j, ?n)) [1 ..< min (i + c) ?n + 1] else [])"
      using f ld pr True len sum
      by (simp add: min_absorb1 del: upt_Suc)
    have r: "rejected ?st = None"
      using f rj by simp
    have "loaded (load_batches load completion onProgress c entries (i + c) ?st) = ?n \<and>
          progress (load_batches load completion onProgress c entries (i + c) ?st) =
            (if onProgress \<noteq> None then map (\<lambda>j. (j, ?n)) [1 ..< ?n + 1] else []) \<and>
          rejected (load_batches load completion onProgress c entries (i + c) ?st) = None"
      using "1.IH" [OF _ refl refl _ quiet pos perm l p r] True pos r by simp
    then show ?thesis
      using True pos r by (simp add: load_batches.simps [of _ _ _ _ _ i] Let_def)
  qed
qed

lemma loadAllImageData_valid:
  assumes "images m \<noteq> []" and "\<And>b. length (completion b) = length b"
    and "1 \<le> c" and "c \<le> 50"
    and "\<forall>callback calls. onProgress = Some callback \<longrightarrow> callback calls = None"
  shows "\<exists>st. loadAllImageData load completion h m (Some (Finite (of_int c))) onProgress = Inr st \<and>
           rejected st = None \<and>
           loaded st = getImageCount m \<and>
           progress st =
             (if onProgress \<noteq> None
              then map (\<lambda>j. (j, getImageCount m)) [1 ..< getImageCount m + 1] else [])"
proof -
  let ?entries = "Map_values (images m)"
  let ?st0 = "\<lparr>ls_heap = h, loaded = 0, progress = [], warnings = [], rejected = None\<rparr>"
  have n: "length ?entries = getImageCount m" "length ?entries \<noteq> 0"
    using assms(1) by (simp_all add: Map_values_def getImageCount_def Map_size_def)
  have pos: "0 < nat c" using assms(3) by simp
  note quiet = assms(5)
  have run: "loadAllImageData load completion h m (Some (Finite (of_int c))) onProgress =
      Inr (load_batches load completion onProgress (nat c) ?entries 0 ?st0)"
    using n(2) assms(3,4) by (simp add: loadAllImageData_def Let_def)
  have "loaded (load_batches load completion onProgress (nat c) ?entries 0 ?st0) = length ?entries \<and>
        progress (load_batches load completion onProgress (nat c) ?entries 0 ?st0) =
          (if onProgress \<noteq> None
           then map (\<lambda>j. (j, length ?entries)) [1 ..< length ?entries + 1] else []) \<and>
        rejected (load_batches load completion onProgress (nat c) ?entries 0 ?st0) = None"
    by (rule load_batches_counts [OF quiet pos assms(2)]) simp_all
  with run n(1) show ?thesis by simp
qed

lemma loadAllImageData_invalid:
  assumes "images m \<noteq> []"
    and "\<And>c. 1 \<le> c \<Longrightarrow> c \<le> 50 \<Longrightarrow> concurrency \<noteq> Finite (of_int c)"
  shows "loadAllImageData load completion h m (Some concurrency) onProgress = Inl InvalidConcurrency"
proof (cases concurrency)
  case (Finite q)
  have n: "length (Map_values (images m)) \<noteq> 0"
    using assms(1) by (simp add: Map_values_def)
  have "q < 1 \<or> q > 50 \<or> of_int \<lfloor>q\<rfloor> \<noteq> q"
  proof (rule ccontr)
    assume "\<not> (q < 1 \<or> q > 50 \<or> of_int \<lfloor>q\<rfloor> \<noteq> q)"
    then have q: "1 \<le> q" "q \<le> 50" "of_int \<lfloor>q\<rfloor> = q" by auto
    from q(1,2) have "1 \<le> \<lfloor>q\<rfloor>" "\<lfloor>q\<rfloor> \<le> 50"
      by (simp_all add: le_floor_iff floor_le_iff)
    with assms(2) [of "\<lfloor>q\<rfloor>"] Finite q(3) show False by simp
  qed
  with Finite n show ?thesis
    by (auto simp: loadAllImageData_def Let_def)
qed (use assms(1) in \<open>simp_all add: loadAllImageData_def Let_def Map_values_def\<close>)

text \<open>With no registered image the call returns at once, before it looks at the
  concurrency.\<close>

lemma loadAllImageData_no_images:
  "images m = [] \<Longrightarrow>
   loadAllImageData load completion h m concurrencyOpt onProgress =
     Inr \<lparr>ls_heap = h, loaded = 0, progress = [], warnings = [], rejected = None\<rparr>"
  by (simp add: loadAllImageData_def Let_def Map_values_def)

text \<open>
  What holds when the progress callback returns from every call.  With at least one
  registered image and a concurrency that is an integer from 1 to 50, the promise of
  \<open>loadAllImageData\<close> is fulfilled after the callback was called with
  \<open>(1, n), (2, n), \<dots>, (n, n)\<close>, where \<open>n\<close> is the number of registered images: the loaded
  values increase strictly and end at \<open>n\<close>.  This holds whichever loads fail (\<open>load\<close> is
  arbitrary) and in whichever order the loads of a batch end (\<open>completion\<close> is any
  permutation of the batch).  The default concurrency is 5.  With any other concurrency
  (a fraction, a value outside 1 to 50, \<open>NaN\<close>, an infinity) the call throws, whatever the
  callback does.
\<close>

lemma loadAllImageData_progress:
  "images m \<noteq> [] \<and> (\<forall>b. mset (completion b) = mset b) \<and> (\<forall>calls. callback calls = None) \<longrightarrow>
     (1 \<le> c \<and> c \<le> 50 \<longrightarrow>
        (\<exists>st. loadAllImageData load completion h m (Some (Finite (of_int c))) (Some callback) = Inr st \<and>
              rejected st = None \<and>
              loaded st = getImageCount m \<and>
              progress st = map (\<lambda>j. (j, getImageCount m)) [1 ..< getImageCount m + 1] \<and>
              sorted_wrt (<) (map fst (progress st)) \<and>
              last (progress st) = (getImageCount m, getImageCount m))) \<and>
     loadAllImageData load completion h m None (Some callback) =
       loadAllImageData load completion h m (Some (Finite 5)) (Some callback) \<and>
     ((\<forall>d. 1 \<le> d \<and> d \<le> 50 \<longrightarrow> concurrency \<noteq> Finite (of_int d)) \<longrightarrow>
        loadAllImageData load completion h m (Some concurrency) onProgress = Inl InvalidConcurrency)"
proof (intro impI, elim conjE)
  assume ne: "images m \<noteq> []" and perm: "\<forall>b. mset (completion b) = mset b"
    and quiet: "\<forall>calls. callback calls = None"
  have len: "\<And>b. length (completion b) = length b"
    using perm by (metis mset_eq_length)
  have q: "\<forall>cb calls. Some callback = Some cb \<longrightarrow> cb calls = None"
    using quiet by simp
  let ?n = "getImageCount m"
  have npos: "0 < ?n"
    using ne by (simp add: getImageCount_def Map_size_def)
  have valid: "1 \<le> c \<and> c \<le> 50 \<longrightarrow>
        (\<exists>st. loadAllImageData load completion h m (Some (Finite (of_int c))) (Some callback) = Inr st \<and>
              rejected st = None \<and>
              loaded st = ?n \<and>
              progress st = map (\<lambda>j. (j, ?n)) [1 ..< ?n + 1] \<and>
              sorted_wrt (<) (map fst (progress st)) \<and>
              last (progress st) = (?n, ?n))"
  proof
    assume c: "1 \<le> c \<and> c \<le> 50"
    from loadAllImageData_valid [OF ne len _ _ q, of c load h] c
    obtain st where st:
      "loadAllImageData load completion h m (Some (Finite (of_int c))) (Some callback) = Inr st"
      "rejected st = None"
      "loaded st = ?n" "progress st = map (\<lambda>j. (j, ?n)) [1 ..< ?n + 1]"
      by auto
    have "map fst (progress st) = [1 ..< ?n + 1]"
      by (simp add: st(4) comp_def del: upt_Suc)
    then have inc: "sorted_wrt (<) (map fst (progress st))"
      by (simp del: upt_Suc)
    have "last (progress st) = (?n, ?n)"
      using npos by (simp add: st(4))
    with st inc show "\<exists>st. loadAllImageData load completion h m (Some (Finite (of_int c))) (Some callback) = Inr st \<and>
              rejected st = None \<and>
              loaded st = ?n \<and>
              progress st = map (\<lambda>j. (j, ?n)) [1 ..< ?n + 1] \<and>
              sorted_wrt (<) (map fst (progress st)) \<and>
              last (progress st) = (?n, ?n)"
      by blast
  qed
  have dflt: "loadAllImageData load completion h m None (Some callback) =
       loadAllImageData load completion h m (Some (Finite 5)) (Some callback)"
    by (simp add: loadAllImageData_def)
  have invalid: "(\<forall>d. 1 \<le> d \<and> d \<le> 50 \<longrightarrow> concurrency \<noteq> Finite (of_int d)) \<longrightarrow>
        loadAllImageData load completion h m (Some concurrency) onProgress = Inl InvalidConcurrency"
    using loadAllImageData_invalid [OF ne, of concurrency load completion h onProgress] by blast
  from valid dflt invalid
  show "(1 \<le> c \<and> c \<le> 50 \<longrightarrow>
        (\<exists>st. loadAllImageData load completion h m (Some (Finite (of_int c))) (Some callback) = Inr st \<and>
              rejected st = None \<and>
              loaded st = getImageCount m \<and>
              progress st = map (\<lambda>j. (j, getImageCount m)) [1 ..< getImageCount m + 1] \<and>
              sorted_wrt (<) (map fst (progress st)) \<and>
              last (progress st) = (getImageCount m, getImageCount m))) \<and>
     loadAllImageData load completion h m None (Some callback) =
       loadAllImageData load completion h m (Some (Finite 5)) (Some callback) \<and>
     ((\<forall>d. 1 \<le> d \<and> d \<le> 50 \<longrightarrow> concurrency \<noteq> Finite (of_int d)) \<longrightarrow>
        loadAllImageData load completion h m (Some concurrency) onProgress = Inl InvalidConcurrency)"
    by blast
qed

lemma example_manager_lazy_images:
  "Map_values (images example_manager_lazy) =
     [\<lparr>entry_image = 0, entry_filename = ''image1.png'', entry_relationshipId = ''rId1'',
       entry_docPrId = 1\<rparr>]"
  by (simp add: example_manager_lazy_def example_heap_unloaded_def image_eval)

lemma example_manager_seven_images:
  "Map_values (images example_manager_seven) = map example_entry [0, 1, 2, 3, 4, 5, 6]"
  by (simp add: example_manager_seven_def Map_values_def)

lemma example_image_counts:
  "getImageCount example_manager_lazy = 1" "getImageCount example_manager_seven = 7"
  using arg_cong [OF example_manager_lazy_images, of length]
        arg_cong [OF example_manager_seven_images, of length]
  by (simp_all add: getImageCount_def Map_size_def Map_values_def)

lemma floor_seven_halves: "\<lfloor>7 / 2 :: rat\<rfloor> = 3"
  by (simp add: floor_eq_iff)

lemmas load_eval =
  load_batches.simps slice_def load_one_def load_failed_def report_def Let_def
  example_entry_def example_heap_seven_def example_heap_unloaded_def example_image_def
  example_load_def throws_on_first_call_def

text \<open>
  The lemma at seven images, of which the fifth fails to load, with concurrency 3 and a
  callback that only returns.
\<close>

lemma loadAllImageData_progress_example:
  "map_sum id (\<lambda>st. (loaded st, progress st, warnings st, rejected st))
     (loadAllImageData example_load rev example_heap_seven example_manager_seven
        (Some (Finite 3)) (Some (\<lambda>calls. None))) =
     Inr (7, [(1, 7), (2, 7), (3, 7), (4, 7), (5, 7), (6, 7), (7, 7)],
          [''Failed to load image data: file missing''], None) \<and>
   loadAllImageData example_load rev example_heap_seven example_manager_seven
     (Some (Finite (7 / 2))) (Some (\<lambda>calls. None)) = Inl InvalidConcurrency \<and>
   loadAllImageData example_load rev example_heap_seven example_manager_seven
     (Some NaN) (Some (\<lambda>calls. None)) = Inl InvalidConcurrency \<and>
   loadAllImageData example_load rev example_heap_seven example_manager_seven
     (Some (Finite 51)) (Some (\<lambda>calls. None)) = Inl InvalidConcurrency"
  by (simp add: loadAllImageData_def example_manager_seven_images floor_seven_halves load_eval)

text \<open>
  C6.  The claim: with a valid concurrency and \<open>n > 0\<close> registered images the progress
  callback is called with strictly increasing loaded values that end at \<open>n\<close>.  The code
  calls \<open>onProgress\<close> inside the \<open>try\<close> block, so an error thrown by the callback is
  caught by the \<open>catch\<close> block meant for a failed load: the image is counted a second
  time and the callback is called again.  With one registered image, whose load
  succeeds, and a callback that throws on its first call only, the calls are \<open>(1, 1)\<close> and
  \<open>(2, 1)\<close>: the loaded values end at 2, above \<open>n = 1\<close>, and the callback's error is logged
  as a failed load.  With the seven images of the example and concurrency 3 the calls
  end at \<open>(8, 7)\<close>.  A callback that throws on every call rejects the promise, and the
  batches after the first are never loaded.
\<close>

theorem loadAllImageData_counts_twice_when_callback_throws:
  "map_sum id (\<lambda>st. (loaded st, progress st, warnings st, rejected st))
     (loadAllImageData example_load id example_heap_unloaded example_manager_lazy
        (Some (Finite 5)) (Some throws_on_first_call)) =
     Inr (2, [(1, 1), (2, 1)], [''Failed to load image data: not ready''], None) \<and>
   getImageCount example_manager_lazy = 1 \<and>
   map_sum id (\<lambda>st. (loaded st, progress st, warnings st, rejected st))
     (loadAllImageData example_load rev example_heap_seven example_manager_seven
        (Some (Finite 3)) (Some throws_on_first_call)) =
     Inr (8, [(1, 7), (2, 7), (3, 7), (4, 7), (5, 7), (6, 7), (7, 7), (8, 7)],
          [''Failed to load image data: not ready'', ''Failed to load image data: file missing''],
          None) \<and>
   getImageCount example_manager_seven = 7 \<and>
   map_sum id (\<lambda>st. (loaded st, progress st, rejected st))
     (loadAllImageData example_load rev example_heap_seven example_manager_seven
        (Some (Finite 3)) (Some (\<lambda>calls. Some ''not ready''))) =
     Inr (6, [(1, 7), (2, 7), (3, 7), (4, 7), (5, 7), (6, 7)], Some ''not ready'')"
  by (simp add: loadAllImageData_def example_manager_seven_images example_manager_lazy_images
      example_image_counts load_eval)

section \<open>CommentManager: verified properties\<close>

lemma ids_below_next_iff:
  "ids_below_next m \<longleftrightarrow> (\<forall>k \<in> fst ` set (comments m). k < nextId m)"
  by (auto simp: ids_below_next_def list_all_iff)

lemma registered_id_below_next:
  "ids_below_next m \<Longrightarrow> Map_has (comments m) k \<Longrightarrow> k < nextId m"
  by (auto simp: ids_below_next_iff Map_has_iff_key)

lemma next_id_is_fresh: "ids_below_next m \<Longrightarrow> \<not> Map_has (comments m) (nextId m)"
  using registered_id_below_next [of m "nextId m"] by auto

lemma Map_set_existing_keys:
  "Map_has m k \<Longrightarrow> fst ` set (Map_set k v m) = fst ` set m"
  by (auto simp: keys_Map_set Map_has_iff_key)

lemma Map_get_Some_has: "Map_get m k = Some v \<Longrightarrow> Map_has m k"
  by (simp add: Map_get_def Map_has_def)

lemma register_keys:
  "fst ` set (comments (fst (register m c))) = insert (nextId m) (fst ` set (comments m))"
proof -
  let ?c1 = "setId (nextId m) c"
  let ?cs = "Map_set (nextId m) \<lparr>comment = ?c1, replies = []\<rparr> (comments m)"
  have k: "fst ` set ?cs = insert (nextId m) (fst ` set (comments m))"
    by (rule keys_Map_set)
  have "fst ` set (Map_set q v ?cs) = fst ` set ?cs" if "Map_get ?cs q = Some e" for q v e
    using that by (intro Map_set_existing_keys Map_get_Some_has)
  with k show ?thesis
    by (auto simp: register_def Let_def getId_def setId_def split: option.splits)
qed

lemma register_nextId: "nextId (fst (register m c)) = nextId m + 1"
  by (simp add: register_def Let_def split: option.splits)

lemma ids_register: "ids_below_next m \<Longrightarrow> ids_below_next (fst (register m c))"
  unfolding ids_below_next_iff register_keys register_nextId by auto

lemma fold_delete_replies:
  "fold (\<lambda>reply cs. Map_delete (getId reply) cs) rs cs =
     filter (\<lambda>e. fst e \<notin> getId ` set rs) cs"
proof (induction rs arbitrary: cs)
  case Nil
  then show ?case by simp
next
  case (Cons r rs)
  have "filter (\<lambda>e. fst e \<notin> getId ` set rs) (Map_delete (getId r) cs) =
        filter (\<lambda>e. fst e \<notin> getId ` set (r # rs)) cs"
    by (auto simp: Map_delete_def intro: filter_cong)
  with Cons show ?case by simp
qed

lemma removeComment_result:
  "removeComment m i =
     (case Map_get (comments m) i of
        None \<Rightarrow> (m, False)
      | Some entry \<Rightarrow>
          (m\<lparr>comments :=
               filter (\<lambda>e. fst e \<noteq> i \<and> fst e \<notin> getId ` set (replies entry)) (comments m)\<rparr>,
           i \<notin> getId ` set (replies entry)))"
proof (cases "Map_get (comments m) i")
  case None
  then show ?thesis by (simp add: removeComment_def)
next
  case (Some entry)
  then have has: "i \<in> fst ` set (comments m)"
    by (auto simp: Map_get_def dest: map_of_SomeD intro: rev_image_eqI)
  have f: "filter (\<lambda>e. fst e \<noteq> i) (filter (\<lambda>e. fst e \<notin> getId ` set (replies entry)) (comments m)) =
        filter (\<lambda>e. fst e \<noteq> i \<and> fst e \<notin> getId ` set (replies entry)) (comments m)"
    by (simp add: conj_commute)
  have "Map_has (filter (\<lambda>e. fst e \<notin> getId ` set (replies entry)) (comments m)) i =
        (i \<notin> getId ` set (replies entry))"
    using has by (auto simp: Map_has_iff_key)
  with Some f show ?thesis
    by (simp add: removeComment_def Let_def fold_delete_replies Map_delete_def)
qed

lemma ids_removeComment: "ids_below_next m \<Longrightarrow> ids_below_next (fst (removeComment m i))"
  by (auto simp: removeComment_result ids_below_next_iff split: option.splits)

lemma ids_createReply:
  "ids_below_next m \<Longrightarrow> ids_below_next (fst (createReply m p a t i d))"
  using ids_register [of m "Comment_createReply p a t i d"]
  by (auto simp: createReply_def Let_def split: prod.splits)

lemma ids_comments_after: "ids_below_next m \<Longrightarrow> ids_below_next (comments_after op m)"
proof (cases op)
  case ClearComments
  then show ?thesis by (simp add: CommentManager_clear_def ids_below_next_def)
qed (simp_all add: ids_register ids_removeComment ids_createReply createComment_def)

lemma ids_reachable: "ids_below_next (fold comments_after ops CommentManager_new)"
proof -
  have "ids_below_next m \<Longrightarrow> ids_below_next (fold comments_after ops m)" for m
    by (induction ops arbitrary: m) (simp_all add: ids_comments_after)
  then show ?thesis
    by (simp add: ids_below_next_def CommentManager_new_def)
qed

lemma createReply_registers:
  fixes m :: CommentManager and p d :: int and a t i :: string
  assumes inv: "ids_below_next m" and parent: "Map_get (comments m) p = Some parentEntry"
  defines "reply \<equiv> (Comment_createReply p a t i d)\<lparr>cmt_id := nextId m\<rparr>"
  shows "createReply m p a t i d =
           (m\<lparr>nextId := nextId m + 1,
              comments := Map_set p (parentEntry\<lparr>replies := replies parentEntry @ [reply]\<rparr>)
                            (Map_set (nextId m) \<lparr>comment = reply, replies = []\<rparr> (comments m))\<rparr>,
            Inr reply)"
proof -
  have has: "Map_has (comments m) p"
    using parent by (simp add: Map_has_def Map_get_def)
  then have ne: "p \<noteq> nextId m"
    using registered_id_below_next [OF inv, of p] by auto
  show ?thesis
    using has ne parent
    by (simp add: createReply_def register_def Let_def setId_def getId_def getParentId_def
        isReply_def Comment_createReply_def reply_def Map_get_Map_set)
qed

text \<open>
  C8.  \<open>createReply parentId\<close> throws exactly when no comment is registered under
  \<open>parentId\<close>, and then changes nothing.  When the parent is registered, in a state where
  every registered id is below \<open>nextId\<close> (the empty manager is such a state and every
  operation keeps it so), the reply gets the id \<open>nextId\<close>, which no registered comment
  has, is stored under that id with no replies of its own, and is appended to the
  parent's reply list; every other entry stays as it is.
\<close>

theorem createReply_requires_parent:
  "(\<not> Map_has (comments m) p \<longrightarrow> createReply m p a t i d = (m, Inl (ParentCommentMissing p))) \<and>
   (Map_has (comments m) p \<longrightarrow> (\<exists>reply. snd (createReply m p a t i d) = Inr reply)) \<and>
   ids_below_next (fold comments_after ops CommentManager_new) \<and>
   (ids_below_next m \<longrightarrow> ids_below_next (comments_after op m)) \<and>
   (ids_below_next m \<and> Map_get (comments m) p = Some parentEntry \<longrightarrow>
      (let reply = (Comment_createReply p a t i d)\<lparr>cmt_id := nextId m\<rparr>;
           m' = fst (createReply m p a t i d)
       in snd (createReply m p a t i d) = Inr reply \<and>
          getComment m (getId reply) = None \<and>
          getComment m' (getId reply) = Some reply \<and>
          getReplies m' (getId reply) = [] \<and>
          getParentId reply = Some p \<and>
          getReplies m' p = getReplies m p @ [reply] \<and>
          getComment m' p = getComment m p \<and>
          nextId m' = nextId m + 1 \<and>
          getCount m' = getCount m + 1 \<and>
          (\<forall>k. k \<noteq> p \<and> k \<noteq> getId reply \<longrightarrow> Map_get (comments m') k = Map_get (comments m) k)))"
proof -
  have absent: "\<not> Map_has (comments m) p \<longrightarrow>
      createReply m p a t i d = (m, Inl (ParentCommentMissing p))"
    by (simp add: createReply_def)
  have present: "Map_has (comments m) p \<longrightarrow> (\<exists>reply. snd (createReply m p a t i d) = Inr reply)"
    by (simp add: createReply_def Let_def split: prod.splits)
  have main: "ids_below_next m \<and> Map_get (comments m) p = Some parentEntry \<longrightarrow>
      (let reply = (Comment_createReply p a t i d)\<lparr>cmt_id := nextId m\<rparr>;
           m' = fst (createReply m p a t i d)
       in snd (createReply m p a t i d) = Inr reply \<and>
          getComment m (getId reply) = None \<and>
          getComment m' (getId reply) = Some reply \<and>
          getReplies m' (getId reply) = [] \<and>
          getParentId reply = Some p \<and>
          getReplies m' p = getReplies m p @ [reply] \<and>
          getComment m' p = getComment m p \<and>
          nextId m' = nextId m + 1 \<and>
          getCount m' = getCount m + 1 \<and>
          (\<forall>k. k \<noteq> p \<and> k \<noteq> getId reply \<longrightarrow> Map_get (comments m') k = Map_get (comments m) k))"
  proof
    assume h: "ids_below_next m \<and> Map_get (comments m) p = Some parentEntry"
    then have inv: "ids_below_next m" and parent: "Map_get (comments m) p = Some parentEntry"
      by simp_all
    let ?reply = "(Comment_createReply p a t i d)\<lparr>cmt_id := nextId m\<rparr>"
    have has: "Map_has (comments m) p"
      using parent by (rule Map_get_Some_has)
    have ne: "p \<noteq> nextId m"
      using registered_id_below_next [OF inv has] by simp
    have fresh: "\<not> Map_has (comments m) (nextId m)"
      using inv by (rule next_id_is_fresh)
    then have fresh': "Map_get (comments m) (nextId m) = None"
      by (simp add: Map_has_def Map_get_def)
    have has2: "Map_has (Map_set (nextId m) \<lparr>comment = ?reply, replies = []\<rparr> (comments m)) p"
      using has by (simp add: Map_has_Map_set)
    have len: "length (Map_set p (parentEntry\<lparr>replies := replies parentEntry @ [?reply]\<rparr>)
                 (Map_set (nextId m) \<lparr>comment = ?reply, replies = []\<rparr> (comments m))) =
               Suc (length (comments m))"
      using has2 fresh by (simp add: length_Map_set)
    show "let reply = ?reply; m' = fst (createReply m p a t i d)
       in snd (createReply m p a t i d) = Inr reply \<and>
          getComment m (getId reply) = None \<and>
          getComment m' (getId reply) = Some reply \<and>
          getReplies m' (getId reply) = [] \<and>
          getParentId reply = Some p \<and>
          getReplies m' p = getReplies m p @ [reply] \<and>
          getComment m' p = getComment m p \<and>
          nextId m' = nextId m + 1 \<and>
          getCount m' = getCount m + 1 \<and>
          (\<forall>k. k \<noteq> p \<and> k \<noteq> getId reply \<longrightarrow> Map_get (comments m') k = Map_get (comments m) k)"
      unfolding Let_def createReply_registers [OF inv parent] fst_conv snd_conv
      using ne parent fresh' len
      by (simp add: getComment_def getReplies_def getId_def getParentId_def getCount_def
          Map_size_def Map_get_Map_set Comment_createReply_def)
  qed
  show ?thesis
    using absent present main ids_reachable [of ops] ids_comments_after [of m op]
    by blast
qed

lemmas comment_eval =
  example_thread_def example_self_reply_def CommentManager_new_def createComment_def createReply_def
  register_def Comment_create_def Comment_createReply_def Let_def setId_def getId_def
  getParentId_def isReply_def Map_get_def Map_has_def removeComment_def Map_delete_def
  getComment_def getReplies_def getCount_def Map_size_def ids_below_next_def

theorem createReply_requires_parent_witness:
  "createReply example_thread 7 ''Dee'' ''Why?'' ''D'' 104 =
     (example_thread, Inl (ParentCommentMissing 7)) \<and>
   snd (createReply example_thread 3 ''Dee'' ''Fixed'' ''D'' 104) =
     Inr \<lparr>cmt_id = 4, cmt_author = ''Dee'', cmt_initials = ''D'', cmt_date = 104,
          cmt_text = ''Fixed'', cmt_parentId = Some 3\<rparr> \<and>
   getComment example_thread 4 = None \<and>
   getReplies (fst (createReply example_thread 3 ''Dee'' ''Fixed'' ''D'' 104)) 3 =
     [\<lparr>cmt_id = 4, cmt_author = ''Dee'', cmt_initials = ''D'', cmt_date = 104,
       cmt_text = ''Fixed'', cmt_parentId = Some 3\<rparr>]"
proof -
  have th: "example_thread =
     \<lparr>comments =
        [(0, \<lparr>comment = \<lparr>cmt_id = 0, cmt_author = ''Ann'', cmt_initials = ''A'', cmt_date = 100,
                          cmt_text = ''Please check'', cmt_parentId = None\<rparr>,
              replies =
                [\<lparr>cmt_id = 1, cmt_author = ''Bob'', cmt_initials = ''B'', cmt_date = 101,
                  cmt_text = ''Done'', cmt_parentId = Some 0\<rparr>,
                 \<lparr>cmt_id = 2, cmt_author = ''Ann'', cmt_initials = ''A'', cmt_date = 102,
                  cmt_text = ''Thanks'', cmt_parentId = Some 0\<rparr>]\<rparr>),
         (1, \<lparr>comment = \<lparr>cmt_id = 1, cmt_author = ''Bob'', cmt_initials = ''B'', cmt_date = 101,
                          cmt_text = ''Done'', cmt_parentId = Some 0\<rparr>, replies = []\<rparr>),
         (2, \<lparr>comment = \<lparr>cmt_id = 2, cmt_author = ''Ann'', cmt_initials = ''A'', cmt_date = 102,
                          cmt_text = ''Thanks'', cmt_parentId = Some 0\<rparr>, replies = []\<rparr>),
         (3, \<lparr>comment = \<lparr>cmt_id = 3, cmt_author = ''Cy'', cmt_initials = ''C'', cmt_date = 103,
                          cmt_text = ''Typo here'', cmt_parentId = None\<rparr>, replies = []\<rparr>)],
      nextId = 4\<rparr>"
    by (simp add: comment_eval)
  have pre: "\<not> Map_has (comments example_thread) 7" "ids_below_next example_thread"
    "Map_get (comments example_thread) 3 =
       Some \<lparr>comment = \<lparr>cmt_id = 3, cmt_author = ''Cy'', cmt_initials = ''C'', cmt_date = 103,
                          cmt_text = ''Typo here'', cmt_parentId = None\<rparr>, replies = []\<rparr>"
    "nextId example_thread = 4" "getReplies example_thread 3 = []"
    unfolding th by (simp_all add: Map_has_def Map_get_def ids_below_next_def getReplies_def)
  show ?thesis
    using pre
      createReply_requires_parent [of example_thread 7 "''Dee''" "''Why?''" "''D''" 104 "[]"
        ClearComments "\<lparr>comment = \<lparr>cmt_id = 3, cmt_author = ''Cy'', cmt_initials = ''C'',
          cmt_date = 103, cmt_text = ''Typo here'', cmt_parentId = None\<rparr>, replies = []\<rparr>"]
      createReply_requires_parent [of example_thread 3 "''Dee''" "''Fixed''" "''D''" 104 "[]"
        ClearComments "\<lparr>comment = \<lparr>cmt_id = 3, cmt_author = ''Cy'', cmt_initials = ''C'',
          cmt_date = 103, cmt_text = ''Typo here'', cmt_parentId = None\<rparr>, replies = []\<rparr>"]
    by (simp add: Let_def Comment_createReply_def getId_def)
qed

subsection \<open>Removing a comment\<close>

text \<open>
  What \<open>removeComment\<close> does in every state (lemma \<open>removeComment_result\<close>): for an
  unregistered id it returns \<open>false\<close> and changes nothing; for a registered id it deletes
  the comment and every reply in its reply list from the store, and returns \<open>true\<close> unless
  the comment stands in its own reply list.
\<close>

lemma removeComment_registered:
  assumes "Map_get (comments m) i = Some entry" and "i \<notin> getId ` set (replies entry)"
  shows "snd (removeComment m i) = True"
    and "getComment (fst (removeComment m i)) i = None"
    and "\<forall>reply \<in> set (replies entry). getComment (fst (removeComment m i)) (getId reply) = None"
    and "\<forall>k. k \<noteq> i \<and> k \<notin> getId ` set (replies entry) \<longrightarrow>
           Map_get (comments (fst (removeComment m i))) k = Map_get (comments m) k"
    and "nextId (fst (removeComment m i)) = nextId m"
  using assms map_of_filter_keys [of "\<lambda>k. k \<noteq> i \<and> k \<notin> getId ` set (replies entry)" "comments m"]
  by (simp_all add: removeComment_result getComment_def Map_get_def)

lemma removeComment_unregistered:
  "Map_get (comments m) i = None \<Longrightarrow> removeComment m i = (m, False)"
  by (simp add: removeComment_result)

text \<open>
  C9 at the state in which the claim fails.  On a fresh manager,
  \<open>register (Comment.createReply 0 \<dots>)\<close> gives the reply the id 0; the reply finds its own
  entry as its parent and is pushed onto its own reply list.  \<open>removeComment 0\<close> then
  deletes the key 0 in the loop over the replies, so the final \<open>delete\<close> finds nothing and
  the call returns \<open>false\<close>, although the comment was registered and is removed.
\<close>

theorem removeComment_self_reply_returns_false:
  "example_self_reply =
     \<lparr>comments =
        [(0, \<lparr>comment = \<lparr>cmt_id = 0, cmt_author = ''Ann'', cmt_initials = ''A'', cmt_date = 100,
                          cmt_text = ''Note'', cmt_parentId = Some 0\<rparr>,
              replies = [\<lparr>cmt_id = 0, cmt_author = ''Ann'', cmt_initials = ''A'', cmt_date = 100,
                          cmt_text = ''Note'', cmt_parentId = Some 0\<rparr>]\<rparr>)],
      nextId = 1\<rparr> \<and>
   getComment example_self_reply 0 =
     Some \<lparr>cmt_id = 0, cmt_author = ''Ann'', cmt_initials = ''A'', cmt_date = 100,
           cmt_text = ''Note'', cmt_parentId = Some 0\<rparr> \<and>
   removeComment example_self_reply 0 = (\<lparr>comments = [], nextId = 1\<rparr>, False)"
  by (simp add: comment_eval)

section \<open>TableOfContents: verified properties\<close>

lemma digits_onto_digit: "n < 10 \<Longrightarrow> digits_onto n acc = digit_char n # acc"
  by (simp add: digits_onto.simps)

lemma levels_configure:
  "levels (configure toc options) = (case p_levels options of Some v \<Rightarrow> v | None \<Rightarrow> levels toc)"
  by (simp add: configure_def Let_def option.case_eq_if)

lemma toXML_result:
  "toXML toc =
     Inr ((if title toc \<noteq> [] then [titleParagraph (title toc)] else []) @
          [XMLElement ''w:p'' []
             [fldCharRun ''begin'', instrTextRun (buildFieldInstruction toc),
              fldCharRun ''separate'', contentRun, fldCharRun ''end'']
             False])"
  by (simp add: toXML_def Let_def push_def validateFieldStructure_def)

lemma stages_of_field:
  "map stage_of
     [fldCharRun ''begin'', instrTextRun instruction, fldCharRun ''separate'', contentRun,
      fldCharRun ''end''] =
     [Begin, Instruction instruction, Separate, CachedContent, End]"
  by (simp add: fldCharRun_def instrTextRun_def contentRun_def)

text \<open>
  C2.  For every table of contents \<open>toXML\<close> succeeds, and the last element it returns is
  the field paragraph, whose children are exactly five runs in this order: the begin
  marker, the instruction text built by \<open>buildFieldInstruction\<close>, the separate marker,
  the cached result content and the end marker (before it stands the title paragraph
  when the title is not empty).  A paragraph that does not have exactly five children
  does not pass the check made before the result is returned: the check fails with an
  error, so whatever \<open>toXML\<close> returns has all five stages.
\<close>

theorem toXML_emits_five_stage_field:
  "toXML toc =
     Inr ((if title toc \<noteq> [] then [titleParagraph (title toc)] else []) @
          [XMLElement ''w:p'' []
             [fldCharRun ''begin'', instrTextRun (buildFieldInstruction toc),
              fldCharRun ''separate'', contentRun, fldCharRun ''end'']
             False]) \<and>
   (\<forall>elements. toXML toc = Inr elements \<longrightarrow>
      elements \<noteq> [] \<and>
      xml_name (last elements) = ''w:p'' \<and>
      length (xml_children (last elements)) = 5 \<and>
      map stage_of (xml_children (last elements)) =
        [Begin, Instruction (buildFieldInstruction toc), Separate, CachedContent, End]) \<and>
   (length (xml_children p) \<noteq> 5 \<longrightarrow>
      validateFieldStructure p = Inl (FieldStructureIncomplete (length (xml_children p)))) \<and>
   (\<forall>q. validateFieldStructure p = Inr q \<longrightarrow> q = p \<and> length (xml_children p) = 5)"
proof -
  have emitted: "\<forall>elements. toXML toc = Inr elements \<longrightarrow>
      elements \<noteq> [] \<and>
      xml_name (last elements) = ''w:p'' \<and>
      length (xml_children (last elements)) = 5 \<and>
      map stage_of (xml_children (last elements)) =
        [Begin, Instruction (buildFieldInstruction toc), Separate, CachedContent, End]"
    unfolding toXML_result using stages_of_field [of "buildFieldInstruction toc"] by auto
  have guard: "length (xml_children p) \<noteq> 5 \<longrightarrow>
      validateFieldStructure p = Inl (FieldStructureIncomplete (length (xml_children p)))"
    "\<forall>q. validateFieldStructure p = Inr q \<longrightarrow> q = p \<and> length (xml_children p) = 5"
    by (auto simp: validateFieldStructure_def split: if_splits)
  show ?thesis
    using toXML_result [of toc] emitted guard by blast
qed

lemma whole_number_toString: "number_toString (Finite (of_int i)) = int_toString i"
  by simp

lemma digit_toString: "0 \<le> i \<Longrightarrow> i < 10 \<Longrightarrow> int_toString i = [digit_char (nat i)]"
  by (simp add: int_toString_def nat_toString_def digits_onto_digit)

lemma instruction_default:
  "buildFieldInstruction (TableOfContents_new no_properties) =
     ''TOC '' @ [backslash] @ ''o '' @ [dquote] @ ''1-3'' @ [dquote] @ '' '' @ [backslash] @
     ''* MERGEFORMAT''"
  using whole_number_toString [of 3] digit_toString [of 3]
  by (simp add: buildFieldInstruction_def TableOfContents_new_def no_properties_def Let_def
      or_number_def or_false_def or_string_def digit_char_def del: number_toString.simps)

theorem toXML_emits_five_stage_field_witness:
  "toXML (TableOfContents_new no_properties) =
     Inr [titleParagraph ''Table of Contents'',
          XMLElement ''w:p'' []
            [fldCharRun ''begin'',
             instrTextRun (''TOC '' @ [backslash] @ ''o '' @ [dquote] @ ''1-3'' @ [dquote] @
                           '' '' @ [backslash] @ ''* MERGEFORMAT''),
             fldCharRun ''separate'', contentRun, fldCharRun ''end'']
            False] \<and>
   validateFieldStructure
     (XMLElement ''w:p'' [] [fldCharRun ''begin'', fldCharRun ''separate'', fldCharRun ''end''] False) =
     Inl (FieldStructureIncomplete 3)"
proof -
  have t: "title (TableOfContents_new no_properties) = ''Table of Contents''"
    by (simp add: TableOfContents_new_def no_properties_def or_string_def)
  have l: "length (xml_children
      (XMLElement ''w:p'' [] [fldCharRun ''begin'', fldCharRun ''separate'', fldCharRun ''end''] False)) \<noteq> 5"
    by simp
  show ?thesis
    using toXML_emits_five_stage_field
            [of "TableOfContents_new no_properties"
                "XMLElement ''w:p'' [] [fldCharRun ''begin'', fldCharRun ''separate'', fldCharRun ''end''] False"]
          l
    unfolding instruction_default t by simp
qed

text \<open>
  What holds of the levels of a table of contents.  The constructor stores any \<open>levels\<close>
  value as it is, except that 0 and \<open>NaN\<close> (and a missing value) become 3; \<open>configure\<close>
  stores any value; neither checks a range: a table of contents built with \<open>levels = 12\<close>
  is serialized with the instruction \<open>TOC \o "1-12" \* MERGEFORMAT\<close>, and \<open>configure\<close> with
  \<open>levels = 0\<close> gives \<open>"1-0"\<close>.  \<open>setLevels\<close> fails exactly for the numbers that compare
  below 1 or above 9, the infinities included, and stores every other number.
\<close>

lemma levels_checked_by_comparison:
  "getLevels (TableOfContents_new (properties\<lparr>p_levels := Some n\<rparr>)) =
     (if number_falsy n then Finite 3 else n) \<and>
   getLevels (configure toc (options\<lparr>p_levels := Some n\<rparr>)) = n \<and>
   setLevels toc n =
     (if number_less n 1 \<or> number_greater n 9 then Inl LevelsOutOfRange
      else Inr (toc\<lparr>levels := n\<rparr>)) \<and>
   ((\<exists>e. setLevels toc n = Inl e) = (number_less n 1 \<or> number_greater n 9)) \<and>
   ((\<exists>e. setLevels toc (Finite q) = Inl e) = (q < 1 \<or> 9 < q)) \<and>
   getLevels (TableOfContents_new (no_properties\<lparr>p_levels := Some (Finite 12)\<rparr>)) = Finite 12 \<and>
   toXML (TableOfContents_new (no_properties\<lparr>p_levels := Some (Finite 12)\<rparr>)) =
     Inr [titleParagraph ''Table of Contents'',
          XMLElement ''w:p'' []
            [fldCharRun ''begin'',
             instrTextRun (''TOC '' @ [backslash] @ ''o '' @ [dquote] @ ''1-12'' @ [dquote] @
                           '' '' @ [backslash] @ ''* MERGEFORMAT''),
             fldCharRun ''separate'', contentRun, fldCharRun ''end'']
            False] \<and>
   buildFieldInstruction
     (configure (TableOfContents_new no_properties) (no_properties\<lparr>p_levels := Some (Finite 0)\<rparr>)) =
     ''TOC '' @ [backslash] @ ''o '' @ [dquote] @ ''1-0'' @ [dquote] @ '' '' @ [backslash] @
     ''* MERGEFORMAT'' \<and>
   setLevels (TableOfContents_new no_properties) (Finite 12) = Inl LevelsOutOfRange"
proof -
  have twelve: "number_toString (Finite 12) = ''12''"
    using whole_number_toString [of 12]
    by (simp add: int_toString_def nat_toString_def digits_onto.simps [of 12] digits_onto_digit
        digit_char_def del: number_toString.simps)
  have zero: "number_toString (Finite 0) = ''0''"
    using whole_number_toString [of 0] digit_toString [of 0]
    by (simp add: digit_char_def del: number_toString.simps)
  have new: "getLevels (TableOfContents_new (properties\<lparr>p_levels := Some n\<rparr>)) =
      (if number_falsy n then Finite 3 else n)"
    by (simp add: getLevels_def TableOfContents_new_def or_number_def)
  have conf: "getLevels (configure toc (options\<lparr>p_levels := Some n\<rparr>)) = n"
    by (simp add: getLevels_def levels_configure)
  have set: "setLevels toc n =
      (if number_less n 1 \<or> number_greater n 9 then Inl LevelsOutOfRange
       else Inr (toc\<lparr>levels := n\<rparr>))"
    "(\<exists>e. setLevels toc n = Inl e) = (number_less n 1 \<or> number_greater n 9)"
    "(\<exists>e. setLevels toc (Finite q) = Inl e) = (q < 1 \<or> 9 < q)"
    "setLevels (TableOfContents_new no_properties) (Finite 12) = Inl LevelsOutOfRange"
    by (auto simp: setLevels_def)
  have t12: "TableOfContents_new (no_properties\<lparr>p_levels := Some (Finite 12)\<rparr>) =
      (TableOfContents_new no_properties)\<lparr>levels := Finite 12\<rparr>"
    by (simp add: TableOfContents_new_def no_properties_def or_number_def)
  have i12: "buildFieldInstruction ((TableOfContents_new no_properties)\<lparr>levels := Finite 12\<rparr>) =
     ''TOC '' @ [backslash] @ ''o '' @ [dquote] @ ''1-12'' @ [dquote] @ '' '' @ [backslash] @
     ''* MERGEFORMAT''"
    by (simp add: buildFieldInstruction_def TableOfContents_new_def no_properties_def Let_def
        or_number_def or_false_def or_string_def twelve del: number_toString.simps)
  have x12: "toXML (TableOfContents_new (no_properties\<lparr>p_levels := Some (Finite 12)\<rparr>)) =
     Inr [titleParagraph ''Table of Contents'',
          XMLElement ''w:p'' []
            [fldCharRun ''begin'',
             instrTextRun (''TOC '' @ [backslash] @ ''o '' @ [dquote] @ ''1-12'' @ [dquote] @
                           '' '' @ [backslash] @ ''* MERGEFORMAT''),
             fldCharRun ''separate'', contentRun, fldCharRun ''end'']
            False]"
    unfolding t12 toXML_result i12
    by (simp add: TableOfContents_new_def no_properties_def or_string_def)
  have c0: "configure (TableOfContents_new no_properties) (no_properties\<lparr>p_levels := Some (Finite 0)\<rparr>) =
      (TableOfContents_new no_properties)\<lparr>levels := Finite 0\<rparr>"
    by (simp add: configure_def no_properties_def Let_def)
  have i0: "buildFieldInstruction ((TableOfContents_new no_properties)\<lparr>levels := Finite 0\<rparr>) =
     ''TOC '' @ [backslash] @ ''o '' @ [dquote] @ ''1-0'' @ [dquote] @ '' '' @ [backslash] @
     ''* MERGEFORMAT''"
    by (simp add: buildFieldInstruction_def TableOfContents_new_def no_properties_def Let_def
        or_number_def or_false_def or_string_def zero del: number_toString.simps)
  show ?thesis
    using new conf set x12 i0 unfolding c0 getLevels_def t12 by simp
qed

text \<open>
  C10.  The claim: the constructor and \<open>configure\<close> take any numeric \<open>levels\<close> value without
  a range check, and \<open>setLevels\<close> rejects the values outside [1,9].  The first half holds:
  \<open>configure\<close> with \<open>levels = 12\<close> stores 12 (which is serialized as \<open>"1-12"\<close>, by the
  lemma above), and the constructor only replaces \<open>NaN\<close>, like 0, by the default 3.  But
  \<open>setLevels\<close> takes a JavaScript number, and \<open>NaN\<close>, which is not in [1,9], passes the
  guard \<open>levels < 1 || levels > 9\<close>, both comparisons being false: \<open>setLevels(NaN)\<close> does not
  throw, it stores \<open>NaN\<close>, and the table of contents is then serialized with the
  instruction \<open>TOC \o "1-NaN" \* MERGEFORMAT\<close>; the values 0, 10 and the infinities are
  rejected.
\<close>

theorem setLevels_NaN_not_rejected:
  "setLevels (TableOfContents_new no_properties) NaN =
     Inr ((TableOfContents_new no_properties)\<lparr>levels := NaN\<rparr>) \<and>
   toXML ((TableOfContents_new no_properties)\<lparr>levels := NaN\<rparr>) =
     Inr [titleParagraph ''Table of Contents'',
          XMLElement ''w:p'' []
            [fldCharRun ''begin'',
             instrTextRun (''TOC '' @ [backslash] @ ''o '' @ [dquote] @ ''1-NaN'' @ [dquote] @
                           '' '' @ [backslash] @ ''* MERGEFORMAT''),
             fldCharRun ''separate'', contentRun, fldCharRun ''end'']
            False] \<and>
   setLevels (TableOfContents_new no_properties) (Finite 0) = Inl LevelsOutOfRange \<and>
   setLevels (TableOfContents_new no_properties) (Finite 10) = Inl LevelsOutOfRange \<and>
   setLevels (TableOfContents_new no_properties) PosInfinity = Inl LevelsOutOfRange \<and>
   setLevels (TableOfContents_new no_properties) NegInfinity = Inl LevelsOutOfRange \<and>
   getLevels (configure (TableOfContents_new no_properties)
                (no_properties\<lparr>p_levels := Some (Finite 12)\<rparr>)) = Finite 12 \<and>
   getLevels (TableOfContents_new (no_properties\<lparr>p_levels := Some NaN\<rparr>)) = Finite 3"
proof -
  have i: "buildFieldInstruction ((TableOfContents_new no_properties)\<lparr>levels := NaN\<rparr>) =
     ''TOC '' @ [backslash] @ ''o '' @ [dquote] @ ''1-NaN'' @ [dquote] @ '' '' @ [backslash] @
     ''* MERGEFORMAT''"
    by (simp add: buildFieldInstruction_def TableOfContents_new_def no_properties_def Let_def
        or_number_def or_false_def or_string_def)
  have x: "toXML ((TableOfContents_new no_properties)\<lparr>levels := NaN\<rparr>) =
     Inr [titleParagraph ''Table of Contents'',
          XMLElement ''w:p'' []
            [fldCharRun ''begin'',
             instrTextRun (''TOC '' @ [backslash] @ ''o '' @ [dquote] @ ''1-NaN'' @ [dquote] @
                           '' '' @ [backslash] @ ''* MERGEFORMAT''),
             fldCharRun ''separate'', contentRun, fldCharRun ''end'']
            False]"
    unfolding toXML_result i
    by (simp add: TableOfContents_new_def no_properties_def or_string_def)
  have s: "setLevels (TableOfContents_new no_properties) NaN =
       Inr ((TableOfContents_new no_properties)\<lparr>levels := NaN\<rparr>)"
    "setLevels (TableOfContents_new no_properties) (Finite 0) = Inl LevelsOutOfRange"
    "setLevels (TableOfContents_new no_properties) (Finite 10) = Inl LevelsOutOfRange"
    "setLevels (TableOfContents_new no_properties) PosInfinity = Inl LevelsOutOfRange"
    "setLevels (TableOfContents_new no_properties) NegInfinity = Inl LevelsOutOfRange"
    by (simp_all add: setLevels_def)
  have g: "getLevels (configure (TableOfContents_new no_properties)
                (no_properties\<lparr>p_levels := Some (Finite 12)\<rparr>)) = Finite 12"
    "getLevels (TableOfContents_new (no_properties\<lparr>p_levels := Some NaN\<rparr>)) = Finite 3"
    by (simp_all add: getLevels_def levels_configure TableOfContents_new_def or_number_def)
  show ?thesis
    using x s g by simp
qed

end
